theory Spec2Isabelle
  imports Main
begin

unbundle bit_operations_syntax

section \<open>Python values and exceptions\<close>

text \<open>
  The front end is Python. Source text is a \<open>string\<close>; a character is one code point in
  the range 0..255. Python integers are unbounded, hence \<open>int\<close>. An exception that the
  source lets escape is a value of \<open>pyerror\<close>, returned as \<open>Inl\<close>.
\<close>

datatype pyerror =
    ValueError
  | TypeError
  | AssertionError string
  | IndexError

section \<open>Type descriptors (types.py)\<close>

text \<open>
  \<open>TupleType\<close> stores the size and alignment that its constructor computed, as the class
  does in its slots \<open>size\<close> and \<open>align\<close>. The datatype constructors are the raw objects;
  the functions \<open>*_init\<close> are the \<open>__init__\<close> methods with their assertions.
\<close>

datatype UnqualifiedType =
    VoidType
  | IntegerType int bool
  | FloatingType int
  | PointerType QualifiedType
  | ArrayType QualifiedType int
  | TupleType "QualifiedType list" int int
  | FunctionType QualifiedType "QualifiedType list"
and QualifiedType =
    QualifiedType UnqualifiedType int

definition Reference :: int where
  "Reference = push_bit 0 1"

definition Constant_flag :: int where
  "Constant_flag = push_bit 1 1"

definition ConstReference :: int where
  "ConstReference = Reference OR Constant_flag"

fun unqualified :: "QualifiedType \<Rightarrow> UnqualifiedType" where
  "unqualified (QualifiedType u f) = u"

fun flags :: "QualifiedType \<Rightarrow> int" where
  "flags (QualifiedType u f) = f"

definition is_reference :: "QualifiedType \<Rightarrow> bool" where
  "is_reference q = (flags q AND Reference \<noteq> 0)"

definition is_const :: "QualifiedType \<Rightarrow> bool" where
  "is_const q = (flags q AND Constant_flag \<noteq> 0)"

definition add_flags :: "QualifiedType \<Rightarrow> int \<Rightarrow> QualifiedType" where
  "add_flags q fl = QualifiedType (unqualified q) (flags q OR fl)"

fun sizeof :: "UnqualifiedType \<Rightarrow> int"
and q_sizeof :: "QualifiedType \<Rightarrow> int" where
  "sizeof VoidType = 0"
| "sizeof (IntegerType w s) = w"
| "sizeof (FloatingType w) = w"
| "sizeof (PointerType t) = 8"
| "sizeof (ArrayType u c) = q_sizeof u * c"
| "sizeof (TupleType ts sz al) = sz"
| "sizeof (FunctionType r as) = 0"
| "q_sizeof (QualifiedType u f) = sizeof u"

fun alignof :: "UnqualifiedType \<Rightarrow> int"
and q_alignof :: "QualifiedType \<Rightarrow> int" where
  "alignof VoidType = 0"
| "alignof (IntegerType w s) = w"
| "alignof (FloatingType w) = w"
| "alignof (PointerType t) = 8"
| "alignof (ArrayType u c) = q_alignof u"
| "alignof (TupleType ts sz al) = al"
| "alignof (FunctionType r as) = 0"
| "q_alignof (QualifiedType u f) = alignof u"

text \<open>
  \<open>IntegerType.__init__\<close>: Python's \<open>&\<close> binds tighter than \<open>==\<close>, so the first assertion
  is \<open>(w & (w - 1)) == 0\<close>. The parameter \<open>signed\<close> defaults to \<open>True\<close>.
\<close>

definition IntegerType_init :: "int \<Rightarrow> bool \<Rightarrow> pyerror + UnqualifiedType" where
  "IntegerType_init w signed =
     (if w AND (w - 1) \<noteq> 0 then Inl (AssertionError ''Integer width must be a power of two'')
      else if w = 1 \<and> signed
        then Inl (AssertionError ''Integer with width 1 (boolean) must be unsigned'')
      else Inr (IntegerType w signed))"

definition FloatingType_init :: "int \<Rightarrow> pyerror + UnqualifiedType" where
  "FloatingType_init width =
     (if width = 32 \<or> width = 64 then Inr (FloatingType width)
      else Inl (AssertionError ''width must be 32 or 64 (float or double respectively)''))"

definition PointerType_init :: "QualifiedType \<Rightarrow> pyerror + UnqualifiedType" where
  "PointerType_init t = Inr (PointerType t)"

definition ArrayType_init :: "QualifiedType \<Rightarrow> int \<Rightarrow> pyerror + UnqualifiedType" where
  "ArrayType_init underlying count =
     (if is_reference underlying
        then Inl (AssertionError ''There may not be an array of references'')
      else Inr (ArrayType underlying count))"

text \<open>
  \<open>TupleType.__init__\<close>: one pass over the members, carrying the list built so far, the
  running size and the running alignment.
\<close>

definition tuple_step ::
  "QualifiedType \<Rightarrow> QualifiedType list \<times> int \<times> int \<Rightarrow> QualifiedType list \<times> int \<times> int" where
  "tuple_step tp acc =
     (case acc of (tys, sz, al) \<Rightarrow>
        (tys @ [tp],
         sz + (if is_reference tp then 8 else q_sizeof tp),
         max al (q_alignof tp)))"

definition TupleType_init :: "QualifiedType list \<Rightarrow> pyerror + UnqualifiedType" where
  "TupleType_init types =
     (case fold tuple_step types ([], 0, 0) of (tys, sz, al) \<Rightarrow> Inr (TupleType tys sz al))"

definition FunctionType_init :: "QualifiedType \<Rightarrow> QualifiedType list \<Rightarrow> pyerror + UnqualifiedType" where
  "FunctionType_init ret_type arg_types = Inr (FunctionType ret_type arg_types)"

section \<open>Tokens (token.py)\<close>

datatype (plugins only: code) TokenType =
    Error | EndOfFile
  | LParen | RParen | LBrace | RBrace | LBracket | RBracket
  | Comma | Dot | Semicolon | Colon | Arrow
  | Tilde
  | Equal | Bang | Plus | Minus | Star | Slash | Percent | Ampersand | Pipe | Caret
  | LShift | RShift | Greater | Lesser
  | EqualEqual | BangEqual | PlusEqual | MinusEqual | StarEqual | SlashEqual | PercentEqual
  | AmpersandEqual | PipeEqual | CaretEqual | LShiftEqual | RShiftEqual | GreaterEqual
  | LesserEqual
  | Identifier | BoolLiteral | IntLiteral | FloatLiteral | StringLiteral
  | AndKW | OrKW | NotKW | ReturnKW | IfKW | ElseKW | VarKW | FnKW

text \<open>
  The payload of a token is typed \<open>typing.Any\<close>: it is \<open>None\<close>, an \<open>int\<close>, a \<open>str\<close> or
  an \<open>UnknownCharacterError\<close> object.
\<close>

datatype PyValue =
    PyNone
  | PyInt int
  | PyStr string
  | UnknownCharacterError char

record Token =
  tok_type :: TokenType
  tok_value :: PyValue
  tok_line :: nat

definition mk_Token :: "TokenType \<Rightarrow> PyValue \<Rightarrow> nat \<Rightarrow> Token" where
  "mk_Token t v l = \<lparr>tok_type = t, tok_value = v, tok_line = l\<rparr>"

record Tokenizer =
  source :: string
  idx :: nat
  line :: nat

definition newline :: char where
  "newline = CHR 0x0A"

definition single_quote :: char where
  "single_quote = CHR 0x27"

definition double_quote :: char where
  "double_quote = CHR 0x22"

definition single_char_literals :: "char \<rightharpoonup> TokenType" where
  "single_char_literals = map_of
     [(CHR ''('', LParen), (CHR '')'', RParen),
      (CHR ''['', LBracket), (CHR '']'', RBracket),
      (CHR ''{'', LBrace), (CHR ''}'', RBrace),
      (CHR '','', Comma), (CHR ''.'', Dot),
      (CHR '';'', Semicolon), (CHR '':'', Colon),
      (CHR ''~'', Tilde)]"

definition keyword_map :: "string \<rightharpoonup> TokenType" where
  "keyword_map = map_of
     [(''and'', AndKW), (''or'', OrKW),
      (''not'', NotKW), (''return'', ReturnKW),
      (''if'', IfKW), (''else'', ElseKW),
      (''var'', VarKW), (''fn'', FnKW)]"

definition regular_operators :: "char \<rightharpoonup> TokenType \<times> TokenType" where
  "regular_operators = map_of
     [(CHR ''+'', (Plus, PlusEqual)),
      (CHR ''*'', (Star, StarEqual)),
      (CHR ''/'', (Slash, SlashEqual)),
      (CHR ''%'', (Percent, PercentEqual)),
      (CHR ''&'', (Ampersand, AmpersandEqual)),
      (CHR ''|'', (Pipe, PipeEqual)),
      (CHR ''^'', (Caret, CaretEqual)),
      (CHR ''!'', (Bang, BangEqual)),
      (CHR ''='', (Equal, EqualEqual))]"

definition ascii_digits :: string where
  "ascii_digits = ''0123456789''"

definition ascii_letters :: string where
  "ascii_letters = ''abcdefghijklmnopqrstuvwxyzABCDEFGHIJKLMNOPQRSTUVWXYZ''"

definition number_chars :: string where
  "number_chars = ''0123456789_''"

definition identifier_chars :: string where
  "identifier_chars = ascii_letters @ ascii_digits @ ''_''"

text \<open>
  \<open>str.isdigit\<close> and \<open>str.isalpha\<close> on the code points 0..255: besides the ASCII
  digits, the superscripts U+00B2, U+00B3 and U+00B9 are digits; besides the ASCII letters,
  U+00AA, U+00B5, U+00BA and the Latin-1 letters U+00C0..U+00FF without U+00D7 and U+00F7
  are alphabetic.
\<close>

definition py_isdigit :: "char \<Rightarrow> bool" where
  "py_isdigit c =
     (let n = (of_char c :: nat)
      in (48 \<le> n \<and> n \<le> 57) \<or> n = 178 \<or> n = 179 \<or> n = 185)"

definition py_isalpha :: "char \<Rightarrow> bool" where
  "py_isalpha c =
     (let n = (of_char c :: nat)
      in (65 \<le> n \<and> n \<le> 90) \<or> (97 \<le> n \<and> n \<le> 122)
         \<or> n = 170 \<or> n = 181 \<or> n = 186
         \<or> (192 \<le> n \<and> n \<le> 214) \<or> (216 \<le> n \<and> n \<le> 246) \<or> (248 \<le> n \<and> n \<le> 255))"

text \<open>The slice \<open>s[a:b]\<close> for indices \<open>0 \<le> a\<close>, \<open>0 \<le> b\<close>; Python clamps both to the length.\<close>

definition slice :: "string \<Rightarrow> nat \<Rightarrow> nat \<Rightarrow> string" where
  "slice s a b = take (b - a) (drop a s)"

text \<open>
  \<open>int(s)\<close> for a string without whitespace and sign, which is all the tokenizer passes:
  decimal digits, where an underscore is accepted only between two digits. Anything else
  raises \<open>ValueError\<close>. (The length limit that recent interpreters put on the conversion
  is a configurable interpreter setting and is not part of the model.)
\<close>

definition is_ascii_digit :: "char \<Rightarrow> bool" where
  "is_ascii_digit c = (c \<in> set ascii_digits)"

fun int_literal_ok :: "string \<Rightarrow> bool" where
  "int_literal_ok [] = False"
| "int_literal_ok [c] = is_ascii_digit c"
| "int_literal_ok (c # d # s) =
     (is_ascii_digit c \<and>
      (if d = CHR ''_'' then int_literal_ok s else int_literal_ok (d # s)))"

definition digit_value :: "char \<Rightarrow> nat" where
  "digit_value c = of_char c - 48"

definition decimal_value :: "string \<Rightarrow> nat" where
  "decimal_value s = foldl (\<lambda>acc c. 10 * acc + digit_value c) 0 s"

definition py_int :: "string \<Rightarrow> pyerror + int" where
  "py_int s =
     (if int_literal_ok s
        then Inr (int (decimal_value (filter (\<lambda>c. c \<noteq> CHR ''_'') s)))
      else Inl ValueError)"

section \<open>Tokenizer (token.py)\<close>

definition Tokenizer_init :: "string \<Rightarrow> Tokenizer" where
  "Tokenizer_init text = \<lparr>source = text, idx = 0, line = 0\<rparr>"

definition Tokenizer_match :: "Tokenizer \<Rightarrow> char \<Rightarrow> bool \<times> Tokenizer" where
  "Tokenizer_match tk c =
     (if idx tk < length (source tk) \<and> source tk ! idx tk = c
        then (True, tk\<lparr>idx := idx tk + 1\<rparr>)
      else (False, tk))"

function tokenize_number_loop :: "Tokenizer \<Rightarrow> Tokenizer" where
  "tokenize_number_loop tk =
     (if idx tk < length (source tk) \<and> source tk ! idx tk \<in> set number_chars
        then tokenize_number_loop (tk\<lparr>idx := idx tk + 1\<rparr>)
      else tk)"
  by pat_completeness auto
termination
  by (relation "measure (\<lambda>tk. length (source tk) - idx tk)") auto

text \<open>\<open>tokenize_number\<close> runs after the first character was consumed, so \<open>idx \<ge> 1\<close>.\<close>

definition tokenize_number :: "Tokenizer \<Rightarrow> pyerror + Token \<times> Tokenizer" where
  "tokenize_number tk =
     (let start_idx = idx tk - 1;
          tk' = tokenize_number_loop tk
      in case py_int (slice (source tk') start_idx (idx tk')) of
           Inl e \<Rightarrow> Inl e
         | Inr number \<Rightarrow> Inr (mk_Token IntLiteral (PyInt number) (line tk'), tk'))"

function tokenize_identifier_loop :: "Tokenizer \<Rightarrow> Tokenizer" where
  "tokenize_identifier_loop tk =
     (if idx tk < length (source tk) \<and> source tk ! idx tk \<in> set identifier_chars
        then tokenize_identifier_loop (tk\<lparr>idx := idx tk + 1\<rparr>)
      else tk)"
  by pat_completeness auto
termination
  by (relation "measure (\<lambda>tk. length (source tk) - idx tk)") auto

definition tokenize_identifier :: "Tokenizer \<Rightarrow> Token \<times> Tokenizer" where
  "tokenize_identifier tk =
     (let start_idx = idx tk - 1;
          tk' = tokenize_identifier_loop tk;
          text = slice (source tk') start_idx (idx tk')
      in case keyword_map text of
           Some kw \<Rightarrow> (mk_Token kw PyNone (line tk'), tk')
         | None \<Rightarrow> (mk_Token Identifier (PyStr text) (line tk'), tk'))"

function tokenize_string_loop :: "char \<Rightarrow> Tokenizer \<Rightarrow> Tokenizer" where
  "tokenize_string_loop close tk =
     (if idx tk < length (source tk) \<and> source tk ! idx tk \<noteq> close
        then tokenize_string_loop close
               (tk\<lparr>line := (if source tk ! idx tk = newline then line tk + 1 else line tk),
                   idx := idx tk + 1\<rparr>)
      else tk)"
  by pat_completeness auto
termination
  by (relation "measure (\<lambda>(close, tk). length (source tk) - idx tk)") auto

text \<open>
  \<open>tokenize_string\<close> also runs after the opening quote was consumed; \<open>close\<close> is read
  back from \<open>source[idx - 1]\<close>, which is then in range.
\<close>

definition tokenize_string :: "Tokenizer \<Rightarrow> Token \<times> Tokenizer" where
  "tokenize_string tk =
     (let close = source tk ! (idx tk - 1);
          start_idx = idx tk;
          start_line = line tk;
          tk1 = tokenize_string_loop close tk;
          tk2 = tk1\<lparr>idx := idx tk1 + 1\<rparr>;
          text = slice (source tk2) start_idx (idx tk2 - 1)
      in (mk_Token StringLiteral (PyStr text) start_line, tk2))"

text \<open>
  The second \<open>if\<close>/\<open>elif\<close> chain of \<open>Tokenizer.__call__\<close>, reached by every character
  that the first chain did not return or \<open>continue\<close> on.
\<close>

definition operator_chain :: "char \<Rightarrow> Tokenizer \<Rightarrow> Token \<times> Tokenizer" where
  "operator_chain c tk =
     (case regular_operators c of
        Some t \<Rightarrow>
          (case Tokenizer_match tk (CHR ''='') of
             (True, tk1) \<Rightarrow> (mk_Token (snd t) PyNone (line tk1), tk1)
           | (False, tk1) \<Rightarrow> (mk_Token (fst t) PyNone (line tk1), tk1))
      | None \<Rightarrow>
          if c = CHR ''-'' then
            (case Tokenizer_match tk (CHR ''>'') of
               (True, tk1) \<Rightarrow> (mk_Token Arrow PyNone (line tk1), tk1)
             | (False, tk1) \<Rightarrow>
                 (case Tokenizer_match tk1 (CHR ''='') of
                    (True, tk2) \<Rightarrow> (mk_Token MinusEqual PyNone (line tk2), tk2)
                  | (False, tk2) \<Rightarrow> (mk_Token Minus PyNone (line tk2), tk2)))
          else if c = CHR ''>'' then
            (case Tokenizer_match tk (CHR ''>'') of
               (True, tk1) \<Rightarrow>
                 (case Tokenizer_match tk1 (CHR ''='') of
                    (True, tk2) \<Rightarrow> (mk_Token RShiftEqual PyNone (line tk2), tk2)
                  | (False, tk2) \<Rightarrow> (mk_Token RShift PyNone (line tk2), tk2))
             | (False, tk1) \<Rightarrow>
                 (case Tokenizer_match tk1 (CHR ''='') of
                    (True, tk2) \<Rightarrow> (mk_Token GreaterEqual PyNone (line tk2), tk2)
                  | (False, tk2) \<Rightarrow> (mk_Token Greater PyNone (line tk2), tk2)))
          else if c = CHR ''<'' then
            (case Tokenizer_match tk (CHR ''<'') of
               (True, tk1) \<Rightarrow>
                 (case Tokenizer_match tk1 (CHR ''='') of
                    (True, tk2) \<Rightarrow> (mk_Token LShiftEqual PyNone (line tk2), tk2)
                  | (False, tk2) \<Rightarrow> (mk_Token LShift PyNone (line tk2), tk2))
             | (False, tk1) \<Rightarrow>
                 (case Tokenizer_match tk1 (CHR ''='') of
                    (True, tk2) \<Rightarrow> (mk_Token LesserEqual PyNone (line tk2), tk2)
                  | (False, tk2) \<Rightarrow> (mk_Token Lesser PyNone (line tk2), tk2)))
          else (mk_Token Error (UnknownCharacterError c) (line tk), tk))"

text \<open>
  \<open>Tokenizer.__call__\<close>. A space restarts the loop (\<open>continue\<close>). A newline increments
  the line counter and then, like every character the first chain does not return on,
  falls through to the second chain. The local \<open>line\<close> is the counter before the
  character was read; only the single-character tokens report it.
\<close>

function tokenizer_call :: "Tokenizer \<Rightarrow> pyerror + Token \<times> Tokenizer" where
  "tokenizer_call tk =
     (if idx tk < length (source tk) then
        (if source tk ! idx tk = CHR '' '' then tokenizer_call (tk\<lparr>idx := idx tk + 1\<rparr>)
         else
           (let c = source tk ! idx tk;
                ln = line tk;
                tk1 = tk\<lparr>idx := idx tk + 1\<rparr>
            in if c = newline then Inr (operator_chain c (tk1\<lparr>line := line tk1 + 1\<rparr>))
               else case single_char_literals c of
                 Some t \<Rightarrow> Inr (mk_Token t PyNone ln, tk1)
               | None \<Rightarrow>
                   if py_isdigit c then tokenize_number tk1
                   else if py_isalpha c \<or> c = CHR ''_'' then Inr (tokenize_identifier tk1)
                   else if c = single_quote \<or> c = double_quote then Inr (tokenize_string tk1)
                   else Inr (operator_chain c tk1)))
      else Inr (mk_Token EndOfFile (PyInt (int (idx tk))) (line tk), tk))"
  by pat_completeness auto
termination
  by (relation "measure (\<lambda>tk. length (source tk) - idx tk)") auto

section \<open>Abstract syntax (expression.py, statement.py)\<close>

datatype ConstantKind = Bool_kind | Int_kind | Float_kind | String_kind

datatype UnaryOperatorKind = Negate | Posate | Flip | Invert

datatype BinaryOperatorKind =
    Add | Subtract | Multiply | Divide | Modulo
  | Bitand | Bitor | Bitxor | LShift_op | RShift_op
  | CmpGreater | CmpGreaterEqual | CmpLesser | CmpLesserEqual | CmpEqual | CmpInEqual

text \<open>
  A field that holds an expression may hold \<open>None\<close> (\<open>parse_atom\<close> returns \<open>None\<close> when no
  alternative matches), so sub-expressions are \<open>Expression option\<close>. Names and constant
  values are whatever payload the token carried.
\<close>

datatype Expression =
    Constant ConstantKind PyValue
  | Identifier_expr PyValue
  | UnaryOperator UnaryOperatorKind "Expression option"
  | BinaryOperator "Expression option" BinaryOperatorKind "Expression option"
  | TernaryOperator "Expression option" "Expression option" "Expression option"

datatype Statement =
    ExpressionStatement "Expression option"
  | ReturnStatement "Expression option"
  | StatementBlock "Statement list"
  | IfStatement "Expression option" Statement "Statement option"
  | VariableDeclaration PyValue QualifiedType "Expression option"
  | FunctionDefinition PyValue UnqualifiedType "PyValue list" "Statement option"

datatype ModuleDefinition = ModuleDefinition "Statement list"

fun arguments :: "UnqualifiedType \<Rightarrow> QualifiedType list" where
  "arguments (FunctionType r as) = as"
| "arguments t = []"

fun is_StatementBlock :: "Statement \<Rightarrow> bool" where
  "is_StatementBlock (StatementBlock ss) = True"
| "is_StatementBlock s = False"

text \<open>\<open>FunctionDefinition.__init__\<close> with its two assertions.\<close>

definition FunctionDefinition_init ::
  "PyValue \<Rightarrow> UnqualifiedType \<Rightarrow> PyValue list \<Rightarrow> Statement option \<Rightarrow> pyerror + Statement" where
  "FunctionDefinition_init name tp names code =
     (if length (arguments tp) \<noteq> length names then Inl (AssertionError [])
      else if \<not> (case code of None \<Rightarrow> True | Some c \<Rightarrow> is_StatementBlock c)
        then Inl (AssertionError [])
      else Inr (FunctionDefinition name tp names code))"

section \<open>Parser state and primitives (parser.py)\<close>

datatype SymbolEntryKind = Variable | Type

record SymbolEntry =
  kind :: SymbolEntryKind
  entry_type :: QualifiedType

record OpInfo =
  precedence :: int
  left_associativity :: bool
  op_kind :: BinaryOperatorKind

definition mk_OpInfo :: "int \<Rightarrow> bool \<Rightarrow> BinaryOperatorKind \<Rightarrow> OpInfo" where
  "mk_OpInfo pr la k = \<lparr>precedence = pr, left_associativity = la, op_kind = k\<rparr>"

definition operator_map :: "TokenType \<rightharpoonup> OpInfo" where
  "operator_map = map_of
     [(Star, mk_OpInfo 0 True Multiply),
      (Slash, mk_OpInfo 0 True Divide),
      (Percent, mk_OpInfo 0 True Modulo),
      (Plus, mk_OpInfo (-1) True Add),
      (Minus, mk_OpInfo (-1) True Subtract),
      (LShift, mk_OpInfo (-2) True LShift_op),
      (RShift, mk_OpInfo (-2) True RShift_op),
      (Greater, mk_OpInfo (-3) True CmpGreater),
      (GreaterEqual, mk_OpInfo (-3) True CmpGreaterEqual),
      (Lesser, mk_OpInfo (-3) True CmpLesser),
      (LesserEqual, mk_OpInfo (-3) True CmpLesserEqual),
      (Equal, mk_OpInfo (-4) True CmpEqual),
      (BangEqual, mk_OpInfo (-4) True CmpInEqual),
      (Ampersand, mk_OpInfo (-5) True Bitand),
      (Caret, mk_OpInfo (-6) True Bitxor),
      (Pipe, mk_OpInfo (-7) True Bitor)]"

text \<open>
  A scope is a \<open>dict\<close>, kept as an association list in insertion order. The symbol table
  is the list of scopes, innermost last.
\<close>

type_synonym scope = "(PyValue \<times> SymbolEntry) list"

record Parser =
  source_code :: string
  tokenizer :: Tokenizer
  token :: Token
  errors :: "string list"
  symbol_table :: "scope list"
  void_type :: QualifiedType

text \<open>
  \<open>dict.get(key, None)\<close> hashes the key first. \<open>UnknownCharacterError\<close> is a dataclass
  with the default \<open>eq=True\<close> and no \<open>frozen\<close>, so it has no hash and the lookup raises
  \<open>TypeError\<close>.
\<close>

definition dict_get :: "scope \<Rightarrow> PyValue \<Rightarrow> pyerror + SymbolEntry option" where
  "dict_get d key =
     (case key of
        UnknownCharacterError c \<Rightarrow> Inl TypeError
      | _ \<Rightarrow> Inr (map_of d key))"

fun search_scopes :: "scope list \<Rightarrow> PyValue \<Rightarrow> pyerror + SymbolEntry option" where
  "search_scopes [] key = Inr None"
| "search_scopes (d # ds) key =
     (case dict_get d key of
        Inl e \<Rightarrow> Inl e
      | Inr (Some e) \<Rightarrow> Inr (Some e)
      | Inr None \<Rightarrow> search_scopes ds key)"

definition search_symbol :: "Parser \<Rightarrow> PyValue \<Rightarrow> pyerror + SymbolEntry option" where
  "search_symbol p key = search_scopes (rev (symbol_table p)) key"

definition enter_scope :: "Parser \<Rightarrow> Parser" where
  "enter_scope p = p\<lparr>symbol_table := symbol_table p @ [[]]\<rparr>"

definition leave_scope :: "Parser \<Rightarrow> pyerror + Parser" where
  "leave_scope p =
     (if symbol_table p = [] then Inl IndexError
      else Inr (p\<lparr>symbol_table := butlast (symbol_table p)\<rparr>))"

definition i32_entry :: SymbolEntry where
  "i32_entry = \<lparr>kind = Type, entry_type = QualifiedType (IntegerType 32 True) 0\<rparr>"

definition Parser_init :: "string \<Rightarrow> pyerror + Parser" where
  "Parser_init text =
     (case tokenizer_call (Tokenizer_init text) of
        Inl e \<Rightarrow> Inl e
      | Inr (t, tk) \<Rightarrow>
          (case IntegerType_init 32 True of
             Inl e \<Rightarrow> Inl e
           | Inr i32 \<Rightarrow>
               Inr \<lparr>source_code = text, tokenizer = tk, token = t, errors = [],
                    symbol_table = [[(PyStr ''i32'', \<lparr>kind = Type, entry_type = QualifiedType i32 0\<rparr>)]],
                    void_type = QualifiedType VoidType 0\<rparr>))"

definition advance :: "Parser \<Rightarrow> pyerror + Token \<times> Parser" where
  "advance p =
     (case tokenizer_call (tokenizer p) of
        Inl e \<Rightarrow> Inl e
      | Inr (t, tk) \<Rightarrow> Inr (token p, p\<lparr>tokenizer := tk, token := t\<rparr>))"

definition match :: "Parser \<Rightarrow> TokenType \<Rightarrow> pyerror + bool \<times> Parser" where
  "match p tp =
     (if tok_type (token p) = tp then
        (case tokenizer_call (tokenizer p) of
           Inl e \<Rightarrow> Inl e
         | Inr (t, tk) \<Rightarrow> Inr (True, p\<lparr>tokenizer := tk, token := t\<rparr>))
      else Inr (False, p))"

definition consume :: "Parser \<Rightarrow> TokenType \<Rightarrow> string \<Rightarrow> pyerror + bool \<times> Parser" where
  "consume p t s =
     (if tok_type (token p) = t then
        (case tokenizer_call (tokenizer p) of
           Inl e \<Rightarrow> Inl e
         | Inr (t', tk) \<Rightarrow> Inr (True, p\<lparr>tokenizer := tk, token := t'\<rparr>))
      else Inr (False, p\<lparr>errors := errors p @ [s]\<rparr>))"

text \<open>\<open>str(v)\<close>, as the f-string of \<open>parse_type_expression\<close> formats the name.\<close>

fun string_of_nat :: "nat \<Rightarrow> string" where
  "string_of_nat n =
     (if n < 10 then [char_of (48 + n)]
      else string_of_nat (n div 10) @ [char_of (48 + n mod 10)])"

fun py_str :: "PyValue \<Rightarrow> string" where
  "py_str PyNone = ''None''"
| "py_str (PyInt i) = (if i < 0 then CHR ''-'' # string_of_nat (nat (- i)) else string_of_nat (nat i))"
| "py_str (PyStr s) = s"
| "py_str (UnknownCharacterError c) = ''UnknownChar('' @ [single_quote, c, single_quote] @ '')''"

section \<open>Results of the recursive parsing methods\<close>

text \<open>
  The recursive methods take a bound on the remaining depth of calls and loop iterations.
  \<open>None\<close> means the bound was reached; \<open>Some (Inl e)\<close> that exception \<open>e\<close> escaped;
  \<open>Some (Inr (v, p))\<close> that the method returned \<open>v\<close> and left the parser in state \<open>p\<close>.
  A call that returns \<open>None\<close> for every bound does not return.
\<close>

type_synonym 'a result = "(pyerror + 'a \<times> Parser) option"

definition ret :: "'a \<Rightarrow> Parser \<Rightarrow> 'a result" where
  "ret v p = Some (Inr (v, p))"

definition lift :: "pyerror + 'a \<times> Parser \<Rightarrow> 'a result" where
  "lift r = Some r"

definition bind_result :: "'a result \<Rightarrow> ('a \<Rightarrow> Parser \<Rightarrow> 'b result) \<Rightarrow> 'b result" where
  "bind_result m f =
     (case m of
        None \<Rightarrow> None
      | Some (Inl e) \<Rightarrow> Some (Inl e)
      | Some (Inr (v, p)) \<Rightarrow> f v p)"

section \<open>Expression parsing\<close>

definition next_prec :: "OpInfo \<Rightarrow> int" where
  "next_prec info = precedence info + (if left_associativity info then 1 else 0)"

fun parse_atom :: "nat \<Rightarrow> Parser \<Rightarrow> Expression option result"
and parse_parenthesis :: "nat \<Rightarrow> Parser \<Rightarrow> Expression option result"
and parse_expression :: "nat \<Rightarrow> int \<Rightarrow> Parser \<Rightarrow> Expression option result"
and parse_expression_loop ::
  "nat \<Rightarrow> int \<Rightarrow> Expression option \<Rightarrow> Parser \<Rightarrow> Expression option result" where
  "parse_atom 0 p = None"
| "parse_atom (Suc n) p =
     bind_result (lift (match p Identifier)) (\<lambda>b p1.
       if b then ret (Some (Identifier_expr (tok_value (token p)))) p1 else
     bind_result (lift (match p1 IntLiteral)) (\<lambda>b p2.
       if b then ret (Some (Constant Int_kind (tok_value (token p)))) p2 else
     bind_result (lift (match p2 StringLiteral)) (\<lambda>b p3.
       if b then ret (Some (Constant String_kind (tok_value (token p)))) p3 else
     bind_result (lift (match p3 Minus)) (\<lambda>b p4.
       if b then bind_result (parse_atom n p4) (\<lambda>e. ret (Some (UnaryOperator Negate e))) else
     bind_result (lift (match p4 Plus)) (\<lambda>b p5.
       if b then bind_result (parse_atom n p5) (\<lambda>e. ret (Some (UnaryOperator Posate e))) else
     bind_result (lift (match p5 Bang)) (\<lambda>b p6.
       if b then bind_result (parse_atom n p6) (\<lambda>e. ret (Some (UnaryOperator Flip e))) else
     bind_result (lift (match p6 Tilde)) (\<lambda>b p7.
       if b then bind_result (parse_atom n p7) (\<lambda>e. ret (Some (UnaryOperator Invert e))) else
     bind_result (lift (match p7 LParen)) (\<lambda>b p8.
       if b then parse_parenthesis n p8
       else ret None p8))))))))"
| "parse_parenthesis 0 p = None"
| "parse_parenthesis (Suc n) p =
     bind_result (parse_expression n (-1000) p) (\<lambda>e p1.
     bind_result (lift (consume p1 RParen ''Expected ')' after expression in parenthesis''))
       (\<lambda>b. ret e))"
| "parse_expression 0 min_prec p = None"
| "parse_expression (Suc n) min_prec p =
     bind_result (parse_atom n p) (\<lambda>lhs. parse_expression_loop n min_prec lhs)"
| "parse_expression_loop 0 min_prec lhs p = None"
| "parse_expression_loop (Suc n) min_prec lhs p =
     (case operator_map (tok_type (token p)) of
        None \<Rightarrow> ret lhs p
      | Some info \<Rightarrow>
          if precedence info < min_prec then ret lhs p
          else
            bind_result (lift (advance p)) (\<lambda>t p1.
            bind_result (parse_expression n (next_prec info) p1) (\<lambda>rhs.
              parse_expression_loop n min_prec (Some (BinaryOperator lhs (op_kind info) rhs)))))"

section \<open>Type expressions and declarations\<close>

definition parse_type_expression :: "Parser \<Rightarrow> pyerror + QualifiedType \<times> Parser" where
  "parse_type_expression p =
     (let name = tok_value (token p) in
      case consume p Identifier ''Type must be an identifier'' of
        Inl e \<Rightarrow> Inl e
      | Inr (b, p1) \<Rightarrow>
          (case search_symbol p1 name of
             Inl e \<Rightarrow> Inl e
           | Inr None \<Rightarrow>
               Inr (void_type p1,
                    p1\<lparr>errors := errors p1 @ [''No type found with name '' @ py_str name]\<rparr>)
           | Inr (Some entry) \<Rightarrow>
               if kind entry \<noteq> Type then
                 Inr (void_type p1,
                      p1\<lparr>errors := errors p1 @ [''Non-type symbol used as a type expression'']\<rparr>)
               else
                 (case match p1 Ampersand of
                    Inl e \<Rightarrow> Inl e
                  | Inr (True, p2) \<Rightarrow> Inr (add_flags (entry_type entry) Reference, p2)
                  | Inr (False, p2) \<Rightarrow> Inr (entry_type entry, p2))))"

definition parse_variable_declaration :: "nat \<Rightarrow> Parser \<Rightarrow> Statement result" where
  "parse_variable_declaration n p =
     (let name = tok_value (token p) in
      bind_result (lift (consume p Identifier ''Variable declaration must have a name!'')) (\<lambda>b p1.
      bind_result (lift (consume p1 Colon ''Expected ':' after variable declaration name'')) (\<lambda>b p2.
      bind_result (lift (parse_type_expression p2)) (\<lambda>tp p3.
      bind_result (lift (match p3 Equal)) (\<lambda>b p4.
      bind_result (if b then parse_expression n (-1000) p4 else ret None p4) (\<lambda>init p5.
      bind_result (lift (consume p5 Semicolon ''Expected ';' after variable declaration'')) (\<lambda>b.
        ret (VariableDeclaration name tp init))))))))"

text \<open>The parameter loop of \<open>parse_function_definition\<close>.\<close>

fun parse_parameters ::
  "nat \<Rightarrow> PyValue list \<Rightarrow> QualifiedType list \<Rightarrow> Parser \<Rightarrow> (PyValue list \<times> QualifiedType list) result" where
  "parse_parameters 0 arg_names arg_types p = None"
| "parse_parameters (Suc n) arg_names arg_types p =
     (if tok_type (token p) = Identifier then
        bind_result (lift (advance p)) (\<lambda>t p1.
        bind_result (lift (consume p1 Colon ''Expected ':' after function parameter name'')) (\<lambda>b p2.
        bind_result (lift (parse_type_expression p2)) (\<lambda>arg_type p3.
        bind_result (lift (match p3 Comma)) (\<lambda>b p4.
          if \<not> b then ret (arg_names @ [tok_value t], arg_types @ [arg_type]) p4
          else parse_parameters n (arg_names @ [tok_value t]) (arg_types @ [arg_type]) p4))))
      else ret (arg_names, arg_types) p)"

section \<open>Statement parsing\<close>

fun parse_block :: "nat \<Rightarrow> Parser \<Rightarrow> Statement result"
and parse_block_loop :: "nat \<Rightarrow> Statement list \<Rightarrow> Parser \<Rightarrow> Statement result"
and parse_if :: "nat \<Rightarrow> Parser \<Rightarrow> Statement result"
and parse_function_definition :: "nat \<Rightarrow> Parser \<Rightarrow> Statement result"
and parse_statement :: "nat \<Rightarrow> Parser \<Rightarrow> Statement result" where
  "parse_block 0 p = None"
| "parse_block (Suc n) p = parse_block_loop n [] p"
| "parse_block_loop 0 statements p = None"
| "parse_block_loop (Suc n) statements p =
     bind_result (lift (match p RBrace)) (\<lambda>b p1.
       if b then ret (StatementBlock statements) p1
       else bind_result (parse_statement n p1) (\<lambda>s.
              parse_block_loop n (statements @ [s])))"
| "parse_if 0 p = None"
| "parse_if (Suc n) p =
     bind_result (lift (consume p LParen ''Expected '(' after if statement'')) (\<lambda>b p1.
     bind_result (parse_expression n (-1000) p1) (\<lambda>condition p2.
     bind_result (lift (consume p2 RParen ''Expected ')' after if's condition'')) (\<lambda>b p3.
     bind_result (parse_statement n p3) (\<lambda>if_clause p4.
     bind_result (lift (match p4 ElseKW)) (\<lambda>b p5.
       if b then bind_result (parse_statement n p5) (\<lambda>else_clause.
                   ret (IfStatement condition if_clause (Some else_clause)))
       else ret (IfStatement condition if_clause None) p5)))))"
| "parse_function_definition 0 p = None"
| "parse_function_definition (Suc n) p =
     (let name = tok_value (token p) in
      bind_result (lift (consume p Identifier ''Function definition must have a name!'')) (\<lambda>b p1.
      bind_result (lift (consume p1 LParen ''Expected '(' after function name'')) (\<lambda>b p2.
      bind_result (parse_parameters n [] [] p2) (\<lambda>args p3.
      bind_result (lift (consume p3 RParen ''Expected ')' after function arguments'')) (\<lambda>b p4.
      bind_result (lift (consume p4 Arrow ''Expected '->' after function arguments'')) (\<lambda>b p5.
      bind_result (lift (parse_type_expression p5)) (\<lambda>ret_tp p6.
      (case FunctionType_init ret_tp (snd args) of
         Inl e \<Rightarrow> Some (Inl e)
       | Inr func_type \<Rightarrow>
           bind_result (lift (match p6 Semicolon)) (\<lambda>b p7.
             if b then
               (case FunctionDefinition_init name func_type (fst args) None of
                  Inl e \<Rightarrow> Some (Inl e)
                | Inr fd \<Rightarrow> ret fd p7)
             else
               bind_result (lift (consume p7 LBrace ''Expected '{' after function definition''))
                 (\<lambda>b p8.
               bind_result (parse_block n p8) (\<lambda>code p9.
                 (case FunctionDefinition_init name func_type (fst args) (Some code) of
                    Inl e \<Rightarrow> Some (Inl e)
                  | Inr fd \<Rightarrow> ret fd p9))))))))))))"
| "parse_statement 0 p = None"
| "parse_statement (Suc n) p =
     bind_result (lift (match p ReturnKW)) (\<lambda>b p1.
       if b then
         bind_result (parse_expression n (-1000) p1) (\<lambda>e p2.
         bind_result (lift (consume p2 Semicolon ''Expected ';' after return statement'')) (\<lambda>b.
           ret (ReturnStatement e)))
       else
     bind_result (lift (match p1 FnKW)) (\<lambda>b p2.
       if b then parse_function_definition n p2 else
     bind_result (lift (match p2 VarKW)) (\<lambda>b p3.
       if b then parse_variable_declaration n p3 else
     bind_result (lift (match p3 IfKW)) (\<lambda>b p4.
       if b then parse_if n p4 else
     bind_result (lift (match p4 LBrace)) (\<lambda>b p5.
       if b then parse_block n p5
       else
         bind_result (parse_expression n (-1000) p5) (\<lambda>e p6.
         bind_result (lift (consume p6 Semicolon ''Expected ';' after expression statement''))
           (\<lambda>b. ret (ExpressionStatement e))))))))"

fun parse_module_loop :: "nat \<Rightarrow> Statement list \<Rightarrow> Parser \<Rightarrow> ModuleDefinition result" where
  "parse_module_loop 0 statements p = None"
| "parse_module_loop (Suc n) statements p =
     (if tok_type (token p) \<noteq> EndOfFile then
        bind_result (parse_statement n p) (\<lambda>stmt. parse_module_loop n (statements @ [stmt]))
      else ret (ModuleDefinition statements) p)"

definition parse_module :: "nat \<Rightarrow> Parser \<Rightarrow> ModuleDefinition result" where
  "parse_module n p = parse_module_loop n [] p"

text \<open>
  The public surface, as \<open>main.py\<close> uses it: construct a parser from the text, call
  \<open>parse_module\<close>, read \<open>errors\<close>.
\<close>

definition parse_source :: "nat \<Rightarrow> string \<Rightarrow> (pyerror + ModuleDefinition \<times> string list) option" where
  "parse_source n text =
     (case Parser_init text of
        Inl e \<Rightarrow> Some (Inl e)
      | Inr p \<Rightarrow>
          (case parse_module n p of
             None \<Rightarrow> None
           | Some (Inl e) \<Rightarrow> Some (Inl e)
           | Some (Inr (m, p')) \<Rightarrow> Some (Inr (m, errors p'))))"

section \<open>Auxiliary notions for the properties\<close>

text \<open>
  A character that no branch of \<open>Tokenizer.__call__\<close> recognises: it fails every test of
  the first chain and of the second chain.
\<close>

definition unrecognised :: "char \<Rightarrow> bool" where
  "unrecognised c =
     (c \<noteq> CHR '' '' \<and> c \<noteq> newline \<and> single_char_literals c = None
      \<and> \<not> py_isdigit c \<and> \<not> py_isalpha c \<and> c \<noteq> CHR ''_''
      \<and> c \<noteq> single_quote \<and> c \<noteq> double_quote
      \<and> regular_operators c = None
      \<and> c \<noteq> CHR ''-'' \<and> c \<noteq> CHR ''>'' \<and> c \<noteq> CHR ''<'')"

definition is_quote :: "char \<Rightarrow> bool" where
  "is_quote c = (c = single_quote \<or> c = double_quote)"

text \<open>
  A token type on which \<open>parse_statement\<close> matches no keyword, \<open>parse_atom\<close> matches no
  alternative, the operator loop does not start and the closing \<open>consume\<close> of the
  expression statement fails.
\<close>

definition starts_nothing :: "TokenType \<Rightarrow> bool" where
  "starts_nothing t =
     (t \<notin> set [ReturnKW, FnKW, VarKW, IfKW, LBrace,
                Identifier, IntLiteral, StringLiteral, Minus, Plus, Bang, Tilde, LParen,
                Semicolon]
      \<and> operator_map t = None)"

definition semicolon_missing :: "Parser \<Rightarrow> Parser" where
  "semicolon_missing p = p\<lparr>errors := errors p @ [''Expected ';' after expression statement'']\<rparr>"

text \<open>The symbol table that a returning call leaves behind is \<open>T\<close>.\<close>

definition keeps :: "scope list \<Rightarrow> 'a result \<Rightarrow> bool" where
  "keeps T r = (case r of Some (Inr (v, p')) \<Rightarrow> symbol_table p' = T | _ \<Rightarrow> True)"

text \<open>Parse one expression of a text; the result is the expression and the token left current.\<close>

definition parse_expression_of ::
  "nat \<Rightarrow> string \<Rightarrow> (pyerror + Expression option \<times> Token) option" where
  "parse_expression_of n text =
     (case Parser_init text of
        Inl e \<Rightarrow> Some (Inl e)
      | Inr p \<Rightarrow>
          (case parse_expression n (-1000) p of
             None \<Rightarrow> None
           | Some (Inl e) \<Rightarrow> Some (Inl e)
           | Some (Inr (e, p')) \<Rightarrow> Some (Inr (e, token p'))))"

text \<open>The parser states right after construction from \<open>")"\<close>, \<open>"{"\<close>, and after the brace.\<close>

definition rparen_parser :: Parser where
  "rparen_parser =
     \<lparr>source_code = '')'', tokenizer = \<lparr>source = '')'', idx = 1, line = 0\<rparr>,
      token = mk_Token RParen PyNone 0, errors = [],
      symbol_table = [[(PyStr ''i32'', i32_entry)]], void_type = QualifiedType VoidType 0\<rparr>"

definition lbrace_parser :: Parser where
  "lbrace_parser =
     \<lparr>source_code = ''{'', tokenizer = \<lparr>source = ''{'', idx = 1, line = 0\<rparr>,
      token = mk_Token LBrace PyNone 0, errors = [],
      symbol_table = [[(PyStr ''i32'', i32_entry)]], void_type = QualifiedType VoidType 0\<rparr>"

definition lbrace_eof_parser :: Parser where
  "lbrace_eof_parser =
     \<lparr>source_code = ''{'', tokenizer = \<lparr>source = ''{'', idx = 1, line = 0\<rparr>,
      token = mk_Token EndOfFile (PyInt 1) 0, errors = [],
      symbol_table = [[(PyStr ''i32'', i32_entry)]], void_type = QualifiedType VoidType 0\<rparr>"

text \<open>The parser state after construction from \<open>"@"\<close>, and from the program of \<open>main.py\<close>.\<close>

definition at_parser :: Parser where
  "at_parser =
     \<lparr>source_code = ''@'', tokenizer = \<lparr>source = ''@'', idx = 1, line = 0\<rparr>,
      token = mk_Token Error (UnknownCharacterError (CHR ''@'')) 0, errors = [],
      symbol_table = [[(PyStr ''i32'', i32_entry)]], void_type = QualifiedType VoidType 0\<rparr>"

definition main_text :: string where
  "main_text = ''fn func(a: i32, b: i32) -> i32 { var c: i32 = a + b; return c * c + a * b; }''"

definition main_parser :: Parser where
  "main_parser =
     \<lparr>source_code = main_text, tokenizer = \<lparr>source = main_text, idx = 2, line = 0\<rparr>,
      token = mk_Token FnKW PyNone 0, errors = [],
      symbol_table = [[(PyStr ''i32'', i32_entry)]], void_type = QualifiedType VoidType 0\<rparr>"

definition q_i32 :: QualifiedType where
  "q_i32 = QualifiedType (IntegerType 32 True) 0"

text \<open>
  Results under two depth bounds: the smaller bound either runs out or gives the same
  result.
\<close>

definition le_result :: "'a result \<Rightarrow> 'a result \<Rightarrow> bool" where
  "le_result a b = (a = None \<or> a = b)"

declare tokenizer_call.simps [simp del]
declare tokenize_string_loop.simps [simp del]
declare tokenize_number_loop.simps [simp del]
declare tokenize_identifier_loop.simps [simp del]

section \<open>Type descriptors: sizes, alignments, constructor contracts\<close>

lemma fold_tuple_step:
  "fold tuple_step ts (tys, sz, al) =
     (tys @ ts,
      sz + (\<Sum>tp\<leftarrow>ts. if is_reference tp then 8 else q_sizeof tp),
      fold (\<lambda>tp a. max a (q_alignof tp)) ts al)"
  by (induction ts arbitrary: tys sz al) (simp_all add: tuple_step_def)

lemma Max_insert_max:
  "finite S \<Longrightarrow> Max (insert (max a x) S) = max a (Max (insert x S))"
  for a x :: int
  by (cases "S = {}") (simp_all add: max.assoc)

lemma fold_max_Max:
  "fold (\<lambda>tp a. max a (q_alignof tp)) ts al = Max (insert al (q_alignof ` set ts))"
proof (induction ts arbitrary: al)
  case Nil
  show ?case by simp
next
  case (Cons t ts)
  have "fold (\<lambda>tp a. max a (q_alignof tp)) (t # ts) al
        = Max (insert (max al (q_alignof t)) (q_alignof ` set ts))"
    using Cons by simp
  also have "\<dots> = max al (Max (insert (q_alignof t) (q_alignof ` set ts)))"
    by (rule Max_insert_max) simp
  also have "\<dots> = Max (insert al (q_alignof ` set (t # ts)))"
    by simp
  finally show ?case .
qed

lemma TupleType_init_eq:
  "TupleType_init ts =
     Inr (TupleType ts (\<Sum>tp\<leftarrow>ts. if is_reference tp then 8 else q_sizeof tp)
            (Max (insert 0 (q_alignof ` set ts))))"
  by (simp add: TupleType_init_def fold_tuple_step fold_max_Max)

lemma Max_insert_floor:
  assumes "ts \<noteq> []" and "\<forall>tp\<in>set ts. 0 \<le> q_alignof tp"
  shows "Max (insert 0 (q_alignof ` set ts)) = Max (q_alignof ` set ts)"
proof -
  from assms(1) obtain t where t: "t \<in> set ts" by (cases ts) auto
  have ne: "q_alignof ` set ts \<noteq> {}" using t by auto
  have "0 \<le> q_alignof t" using assms(2) t by simp
  also have "q_alignof t \<le> Max (q_alignof ` set ts)" using t by simp
  finally have "max 0 (Max (q_alignof ` set ts)) = Max (q_alignof ` set ts)" by simp
  with ne show ?thesis by simp
qed

text \<open>
  Claim C8. The size of \<open>Integer(32)\<close> is 32. Every array has the size of its element
  type times the count and the alignment of its element type, so an array of four
  \<open>Integer(32)\<close> has size 128. The constructor of a tuple always succeeds; the size it
  stores is the sum over the members of 8 for a reference and of the member's size
  otherwise; the alignment it stores is the largest member alignment, starting from 0
  (so 0 for the empty tuple, and the maximum member alignment for a non-empty tuple whose
  members have non-negative alignment). The tuple of two \<open>Integer(32)\<close> has alignment 32.
\<close>

theorem sizeof_alignof_spec:
  "IntegerType_init 32 True = Inr (IntegerType 32 True)
   \<and> sizeof (IntegerType 32 True) = 32
   \<and> sizeof (ArrayType u c) = q_sizeof u * c
   \<and> alignof (ArrayType u c) = q_alignof u
   \<and> ArrayType_init q_i32 4 = Inr (ArrayType q_i32 4)
   \<and> sizeof (ArrayType q_i32 4) = 128
   \<and> (\<exists>t. TupleType_init ts = Inr t
        \<and> sizeof t = (\<Sum>tp\<leftarrow>ts. if is_reference tp then 8 else q_sizeof tp)
        \<and> alignof t = Max (insert 0 (q_alignof ` set ts))
        \<and> (ts \<noteq> [] \<longrightarrow> (\<forall>tp\<in>set ts. 0 \<le> q_alignof tp)
               \<longrightarrow> alignof t = Max (q_alignof ` set ts)))
   \<and> (\<exists>t. TupleType_init [q_i32, q_i32] = Inr t \<and> alignof t = 32)"
proof -
  let ?sz = "\<Sum>tp\<leftarrow>ts. if is_reference tp then 8 else q_sizeof tp"
  let ?al = "Max (insert 0 (q_alignof ` set ts))"
  have i: "IntegerType_init 32 True = Inr (IntegerType 32 True)"
    by (simp add: IntegerType_init_def)
  have a: "ArrayType_init q_i32 4 = Inr (ArrayType q_i32 4)"
    by (simp add: ArrayType_init_def is_reference_def Reference_def q_i32_def)
  have s: "sizeof (ArrayType q_i32 4) = 128"
    by (simp add: q_i32_def)
  have fl: "ts \<noteq> [] \<longrightarrow> (\<forall>tp\<in>set ts. 0 \<le> q_alignof tp)
              \<longrightarrow> alignof (TupleType ts ?sz ?al) = Max (q_alignof ` set ts)"
  proof (intro impI)
    assume "ts \<noteq> []" and "\<forall>tp\<in>set ts. 0 \<le> q_alignof tp"
    then have "?al = Max (q_alignof ` set ts)" by (rule Max_insert_floor)
    then show "alignof (TupleType ts ?sz ?al) = Max (q_alignof ` set ts)"
      by (simp only: alignof.simps)
  qed
  have t: "\<exists>t. TupleType_init ts = Inr t \<and> sizeof t = ?sz \<and> alignof t = ?al
        \<and> (ts \<noteq> [] \<longrightarrow> (\<forall>tp\<in>set ts. 0 \<le> q_alignof tp)
               \<longrightarrow> alignof t = Max (q_alignof ` set ts))"
    using fl by (intro exI[of _ "TupleType ts ?sz ?al"] conjI TupleType_init_eq)
      (simp_all only: sizeof.simps alignof.simps)
  have e: "\<exists>t. TupleType_init [q_i32, q_i32] = Inr t \<and> alignof t = 32"
    by (simp add: TupleType_init_eq q_i32_def)
  from i a s t e show ?thesis by simp
qed

theorem sizeof_alignof_spec_witness:
  "[q_i32, q_i32] \<noteq> [] \<and> 0 \<le> q_alignof q_i32
   \<and> (\<exists>t. TupleType_init [q_i32, q_i32] = Inr t
        \<and> sizeof t = 64
        \<and> alignof t = Max (q_alignof ` set [q_i32, q_i32]))"
  using sizeof_alignof_spec [of undefined 0 "[q_i32, q_i32]"]
  by (simp add: q_i32_def is_reference_def Reference_def)

text \<open>
  Claim C7. \<open>IntegerType.__init__\<close> accepts the width 0, which is not a power of two:
  the assertion \<open>w & (w - 1) == 0\<close> holds for 0. The constructor returns the descriptor
  instead of failing.
\<close>

theorem IntegerType_zero_width_accepted:
  "IntegerType_init 0 True = Inr (IntegerType 0 True)
   \<and> IntegerType_init 0 False = Inr (IntegerType 0 False)
   \<and> (\<forall>k::nat. (0::int) \<noteq> 2 ^ k)"
  by (simp add: IntegerType_init_def)

lemma FloatingType_init_fails_iff:
  "(\<exists>e. FloatingType_init w = Inl e) \<longleftrightarrow> w \<noteq> 32 \<and> w \<noteq> 64"
  by (simp add: FloatingType_init_def)

lemma ArrayType_init_fails_iff:
  "(\<exists>e. ArrayType_init u c = Inl e) \<longleftrightarrow> is_reference u"
  by (simp add: ArrayType_init_def)

lemma IntegerType_init_fails_iff:
  "(\<exists>e. IntegerType_init w s = Inl e) \<longleftrightarrow> w AND (w - 1) \<noteq> 0 \<or> (w = 1 \<and> s)"
  by (simp add: IntegerType_init_def)

lemma even_step: "(2 * m) AND (2 * m - 1) = 2 * (m AND (m - 1))" for m :: int
proof -
  have d: "(2 * m - 1) div 2 = m - 1" by linarith
  show ?thesis by (subst and_int_rec) (simp add: d)
qed

lemma odd_step: "(2 * m + 1) AND (2 * m + 1 - 1) = 2 * m" for m :: int
  by (subst and_int_rec) simp

lemma neg_step: "w < 0 \<Longrightarrow> w AND (w - 1) \<noteq> 0" for w :: int
proof -
  assume "w < 0"
  then have "w AND (w - 1) < 0" by (simp add: and_negative_int_iff)
  then show ?thesis by (rule order.strict_implies_not_eq)
qed

lemma pow2_and_pred: "(2 ^ k) AND (2 ^ k - 1) = (0::int)"
proof (induction k)
  case 0
  show ?case by simp
next
  case (Suc k)
  have "(2 * 2 ^ k) AND (2 * 2 ^ k - 1) = 2 * ((2 ^ k) AND (2 ^ k - 1 :: int))"
    by (rule even_step)
  with Suc show ?case by simp
qed

lemma and_pred_zero_pos:
  "0 < w \<Longrightarrow> w AND (w - 1) = 0 \<Longrightarrow> \<exists>k::nat. w = 2 ^ k" for w :: int
proof (induction "nat w" arbitrary: w rule: less_induct)
  case less
  show ?case
  proof (cases "even w")
    case True
    then obtain m where w: "w = 2 * m" by (elim evenE)
    with less.prems have m0: "0 < m" by simp
    from less.prems(2) have "m AND (m - 1) = 0" unfolding w even_step by simp
    moreover have "nat m < nat w" using m0 w by simp
    ultimately obtain k where "m = 2 ^ k" using less.hyps[of m] m0 by blast
    then have "w = 2 ^ Suc k" using w by simp
    then show ?thesis by blast
  next
    case False
    then obtain m where w: "w = 2 * m + 1" by (elim oddE)
    from less.prems(2) have "m = 0" unfolding w odd_step by simp
    then have "w = 2 ^ 0" using w by simp
    then show ?thesis by blast
  qed
qed

lemma and_pred_zero_iff:
  "w AND (w - 1) = 0 \<longleftrightarrow> w = 0 \<or> (\<exists>k::nat. w = 2 ^ k)" for w :: int
proof
  assume z: "w AND (w - 1) = 0"
  show "w = 0 \<or> (\<exists>k::nat. w = 2 ^ k)"
  proof (cases "w \<le> 0")
    case True
    with z neg_step[of w] show ?thesis by (cases "w = 0") auto
  next
    case False
    with z and_pred_zero_pos[of w] show ?thesis by simp
  qed
next
  assume "w = 0 \<or> (\<exists>k::nat. w = 2 ^ k)"
  then show "w AND (w - 1) = 0" using pow2_and_pred by auto
qed

lemma IntegerType_init_succeeds_iff:
  "(\<exists>t. IntegerType_init w s = Inr t) \<longleftrightarrow> (w = 0 \<or> (\<exists>k::nat. w = 2 ^ k)) \<and> \<not> (w = 1 \<and> s)"
  using and_pred_zero_iff[of w] by (auto simp: IntegerType_init_def)

section \<open>Tokenizer properties\<close>

lemma string_loop:
  assumes "close \<notin> set body" and "source tk = pre @ body @ close # rest" and "idx tk = length pre"
  shows "tokenize_string_loop close tk =
           tk\<lparr>idx := length pre + length body, line := line tk + count_list body newline\<rparr>"
  using assms
proof (induction body arbitrary: pre tk)
  case Nil
  then show ?case by (subst tokenize_string_loop.simps) simp
next
  case (Cons b body)
  let ?tk = "tk\<lparr>line := (if source tk ! idx tk = newline then line tk + 1 else line tk),
                  idx := idx tk + 1\<rparr>"
  have b: "source tk ! idx tk = b" using Cons.prems by simp
  have ne: "b \<noteq> close" using Cons.prems by auto
  have lt: "idx tk < length (source tk)" using Cons.prems by simp
  have step: "tokenize_string_loop close tk = tokenize_string_loop close ?tk"
    using b ne lt by (subst tokenize_string_loop.simps) simp
  have "tokenize_string_loop close ?tk =
          ?tk\<lparr>idx := length (pre @ [b]) + length body,
              line := line ?tk + count_list body newline\<rparr>"
    by (rule Cons.IH) (use Cons.prems in auto)
  with step b show ?case by simp
qed

lemma slice_mid: "slice (pre @ body @ rest) (length pre) (length pre + length body) = body"
  by (simp add: slice_def)

lemma quote_facts:
  "is_quote q \<Longrightarrow> q \<noteq> CHR '' '' \<and> q \<noteq> newline \<and> single_char_literals q = None
     \<and> \<not> py_isdigit q \<and> \<not> py_isalpha q \<and> q \<noteq> CHR ''_''"
proof -
  have s: "single_quote \<noteq> CHR '' '' \<and> single_quote \<noteq> newline
     \<and> single_char_literals single_quote = None
     \<and> \<not> py_isdigit single_quote \<and> \<not> py_isalpha single_quote \<and> single_quote \<noteq> CHR ''_''"
    by code_simp
  have d: "double_quote \<noteq> CHR '' '' \<and> double_quote \<noteq> newline
     \<and> single_char_literals double_quote = None
     \<and> \<not> py_isdigit double_quote \<and> \<not> py_isalpha double_quote \<and> double_quote \<noteq> CHR ''_''"
    by code_simp
  assume "is_quote q"
  then have "q = single_quote \<or> q = double_quote" by (simp add: is_quote_def)
  then show ?thesis
  proof
    assume "q = single_quote"
    with s show ?thesis by simp
  next
    assume "q = double_quote"
    with d show ?thesis by simp
  qed
qed

lemma call_quote:
  assumes "is_quote q" and "idx tk < length (source tk)" and "source tk ! idx tk = q"
  shows "tokenizer_call tk = Inr (tokenize_string (tk\<lparr>idx := idx tk + 1\<rparr>))"
  using quote_facts[OF assms(1)] assms
  by (subst tokenizer_call.simps) (simp add: Let_def is_quote_def)

text \<open>
  Claim C9. When the tokenizer stands on a quote (single or double) and the same quote
  occurs again later, the text between the two, in which that quote does not occur, is
  the payload of the \<open>StringLiteral\<close> token, unchanged; the token reports the line counter
  as it was at the opening quote; the cursor is left behind the closing quote and the line
  counter has grown by the number of newlines in the text.
\<close>

theorem string_literal_token:
  assumes "is_quote q" and "q \<notin> set body"
    and "source tk = pre @ q # body @ q # rest" and "idx tk = length pre"
  shows "tokenizer_call tk =
           Inr (mk_Token StringLiteral (PyStr body) (line tk),
                tk\<lparr>idx := length pre + length body + 2,
                    line := line tk + count_list body newline\<rparr>)"
proof -
  let ?tk1 = "tk\<lparr>idx := idx tk + 1\<rparr>"
  have c: "source tk ! idx tk = q" and lt: "idx tk < length (source tk)"
    using assms by simp_all
  have call: "tokenizer_call tk = Inr (tokenize_string ?tk1)"
    by (rule call_quote[OF assms(1) lt c])
  have src1: "source ?tk1 = (pre @ [q]) @ body @ q # rest" and idx1: "idx ?tk1 = length (pre @ [q])"
    using assms by simp_all
  have close: "source ?tk1 ! (idx ?tk1 - 1) = q" using c by simp
  have loop: "tokenize_string_loop q ?tk1 =
      ?tk1\<lparr>idx := length (pre @ [q]) + length body, line := line ?tk1 + count_list body newline\<rparr>"
    by (rule string_loop[OF assms(2) src1 idx1])
  have sl: "slice (source tk) (Suc (length pre)) (Suc (length pre) + length body) = body"
    using slice_mid[of "pre @ [q]" body "q # rest"] assms(3) by simp
  have "tokenize_string ?tk1 =
          (mk_Token StringLiteral (PyStr body) (line tk),
           tk\<lparr>idx := length pre + length body + 2,
               line := line tk + count_list body newline\<rparr>)"
    unfolding tokenize_string_def Let_def close loop
    using sl assms(4) by simp
  with call show ?thesis by simp
qed

theorem string_literal_token_witness:
  "is_quote single_quote
   \<and> single_quote \<notin> set [CHR ''a'', CHR ''b'', newline, CHR ''c'']
   \<and> source \<lparr>source = ''x '' @ single_quote # [CHR ''a'', CHR ''b'', newline, CHR ''c''] @ single_quote # '';'',
              idx = 2, line = 7\<rparr>
       = ''x '' @ single_quote # [CHR ''a'', CHR ''b'', newline, CHR ''c''] @ single_quote # '';''
   \<and> idx \<lparr>source = ''x '' @ single_quote # [CHR ''a'', CHR ''b'', newline, CHR ''c''] @ single_quote # '';'',
           idx = 2, line = 7\<rparr> = length ''x ''
   \<and> tokenizer_call
        \<lparr>source = ''x '' @ single_quote # [CHR ''a'', CHR ''b'', newline, CHR ''c''] @ single_quote # '';'',
         idx = 2, line = 7\<rparr>
       = Inr (mk_Token StringLiteral (PyStr [CHR ''a'', CHR ''b'', newline, CHR ''c'']) 7,
              \<lparr>source = ''x '' @ single_quote # [CHR ''a'', CHR ''b'', newline, CHR ''c''] @ single_quote # '';'',
               idx = 8, line = 8\<rparr>)"
proof -
  let ?body = "[CHR ''a'', CHR ''b'', newline, CHR ''c'']"
  let ?tk = "\<lparr>source = ''x '' @ single_quote # ?body @ single_quote # '';'', idx = 2, line = 7\<rparr>"
  have h1: "is_quote single_quote" by (simp add: is_quote_def)
  have h2: "single_quote \<notin> set ?body" by (simp add: single_quote_def newline_def)
  have h3: "source ?tk = ''x '' @ single_quote # ?body @ single_quote # '';''" by simp
  have h4: "idx ?tk = length ''x ''" by simp
  have e1: "length ''x '' + length ?body + 2 = 8" by simp
  have e2: "count_list ?body newline = 1" by (simp add: newline_def)
  have e3: "line ?tk + 1 = 8" by simp
  from string_literal_token [OF h1 h2 h3 h4]
  have "tokenizer_call ?tk =
          Inr (mk_Token StringLiteral (PyStr ?body) (line ?tk), ?tk\<lparr>idx := 8, line := 8\<rparr>)"
    unfolding e1 e2 e3 .
  with h1 h2 show ?thesis by simp
qed

lemma tokenizer_unrecognised:
  assumes "idx tk < length (source tk)" and "unrecognised (source tk ! idx tk)"
  shows "tokenizer_call tk =
           Inr (mk_Token Error (UnknownCharacterError (source tk ! idx tk)) (line tk),
                tk\<lparr>idx := idx tk + 1\<rparr>)"
  using assms
  by (subst tokenizer_call.simps) (simp add: unrecognised_def operator_chain_def Let_def)

lemma arrow_token:
  "tokenizer_call (Tokenizer_init ''->'')
     = Inr (mk_Token Arrow PyNone 0, \<lparr>source = ''->'', idx = 2, line = 0\<rparr>)"
  by code_simp

lemma lshift_equal_token:
  "tokenizer_call (Tokenizer_init ''<<='')
     = Inr (mk_Token LShiftEqual PyNone 0, \<lparr>source = ''<<='', idx = 3, line = 0\<rparr>)"
  by code_simp

lemma greater_equal_token:
  "tokenizer_call (Tokenizer_init ''>='')
     = Inr (mk_Token GreaterEqual PyNone 0, \<lparr>source = ''>='', idx = 2, line = 0\<rparr>)"
  by code_simp

lemma unrecognised_at: "unrecognised (CHR ''@'')"
  by code_simp

lemma init_at: "Parser_init ''@'' = Inr at_parser"
  by code_simp

text \<open>
  Claim C10. The texts \<open>"->"\<close>, \<open>"<<="\<close> and \<open>">="\<close> give the tokens \<open>Arrow\<close>,
  \<open>LShiftEqual\<close> and \<open>GreaterEqual\<close>. On a character that no rule recognises, such as
  \<open>@\<close>, the tokenizer returns an \<open>Error\<close> token that carries the character, and its state
  afterwards differs only in the cursor, which stands on the following character. The
  tokenizer state has no diagnostics, and a parser constructed from \<open>"@"\<close> has the
  \<open>Error\<close> token as its current token and an empty list of diagnostics.
\<close>

theorem operator_and_error_tokens:
  "tokenizer_call (Tokenizer_init ''->'')
     = Inr (mk_Token Arrow PyNone 0, \<lparr>source = ''->'', idx = 2, line = 0\<rparr>)
   \<and> tokenizer_call (Tokenizer_init ''<<='')
     = Inr (mk_Token LShiftEqual PyNone 0, \<lparr>source = ''<<='', idx = 3, line = 0\<rparr>)
   \<and> tokenizer_call (Tokenizer_init ''>='')
     = Inr (mk_Token GreaterEqual PyNone 0, \<lparr>source = ''>='', idx = 2, line = 0\<rparr>)
   \<and> unrecognised (CHR ''@'')
   \<and> (idx tk < length (source tk) \<longrightarrow> unrecognised (source tk ! idx tk) \<longrightarrow>
        tokenizer_call tk
          = Inr (mk_Token Error (UnknownCharacterError (source tk ! idx tk)) (line tk),
                 tk\<lparr>idx := idx tk + 1\<rparr>))
   \<and> Parser_init ''@'' = Inr at_parser
   \<and> token at_parser = mk_Token Error (UnknownCharacterError (CHR ''@'')) 0
   \<and> errors at_parser = []"
  using arrow_token lshift_equal_token greater_equal_token unrecognised_at init_at
    tokenizer_unrecognised [of tk]
  by (simp add: at_parser_def)

theorem operator_and_error_tokens_witness:
  "idx (Tokenizer_init ''@'') < length (source (Tokenizer_init ''@''))
   \<and> unrecognised (source (Tokenizer_init ''@'') ! idx (Tokenizer_init ''@''))
   \<and> tokenizer_call (Tokenizer_init ''@'')
       = Inr (mk_Token Error (UnknownCharacterError (CHR ''@'')) 0,
              \<lparr>source = ''@'', idx = 1, line = 0\<rparr>)"
proof -
  have h1: "idx (Tokenizer_init ''@'') < length (source (Tokenizer_init ''@''))"
    by (simp add: Tokenizer_init_def)
  have h2: "unrecognised (source (Tokenizer_init ''@'') ! idx (Tokenizer_init ''@''))"
    using unrecognised_at by (simp add: Tokenizer_init_def)
  from operator_and_error_tokens [of "Tokenizer_init ''@''"] h1 h2
  have "tokenizer_call (Tokenizer_init ''@'')
          = Inr (mk_Token Error
                   (UnknownCharacterError (source (Tokenizer_init ''@'') ! idx (Tokenizer_init ''@'')))
                   (line (Tokenizer_init ''@'')),
                 (Tokenizer_init ''@'')\<lparr>idx := idx (Tokenizer_init ''@'') + 1\<rparr>)"
    by blast
  then show ?thesis using h1 h2 by (simp add: Tokenizer_init_def)
qed

lemma number_loop:
  assumes "set run \<subseteq> set number_chars" and "source tk = pre @ run @ rest"
    and "idx tk = length pre" and "rest = [] \<or> hd rest \<notin> set number_chars"
  shows "tokenize_number_loop tk = tk\<lparr>idx := length pre + length run\<rparr>"
  using assms
proof (induction run arbitrary: pre tk)
  case Nil
  have "\<not> (idx tk < length (source tk) \<and> source tk ! idx tk \<in> set number_chars)"
  proof (cases rest)
    case Nil
    with Nil.prems show ?thesis by simp
  next
    case (Cons r rs)
    with Nil.prems show ?thesis by simp
  qed
  then have nc: "(idx tk < length (source tk) \<and> source tk ! idx tk \<in> set number_chars) = False"
    by simp
  have "tokenize_number_loop tk = tk"
    by (subst tokenize_number_loop.simps) (simp only: nc if_False)
  with Nil.prems show ?case by simp
next
  case (Cons b run)
  let ?tk = "tk\<lparr>idx := idx tk + 1\<rparr>"
  have b: "source tk ! idx tk = b" using Cons.prems by simp
  have lt: "idx tk < length (source tk)" using Cons.prems by simp
  have m: "b \<in> set number_chars" using Cons.prems by simp
  have step: "tokenize_number_loop tk = tokenize_number_loop ?tk"
    using b m lt by (subst tokenize_number_loop.simps) simp
  have "tokenize_number_loop ?tk = ?tk\<lparr>idx := length (pre @ [b]) + length run\<rparr>"
    by (rule Cons.IH) (use Cons.prems in auto)
  with step show ?case by simp
qed

lemma digit_facts_all:
  "list_all (\<lambda>d. d \<noteq> CHR '' '' \<and> d \<noteq> newline \<and> single_char_literals d = None \<and> py_isdigit d)
     ascii_digits"
  by code_simp

lemma digit_facts:
  assumes "is_ascii_digit d"
  shows "d \<noteq> CHR '' '' \<and> d \<noteq> newline \<and> single_char_literals d = None \<and> py_isdigit d"
  using assms digit_facts_all unfolding is_ascii_digit_def list_all_iff by blast

lemma call_digit:
  assumes "is_ascii_digit d" and "idx tk < length (source tk)" and "source tk ! idx tk = d"
  shows "tokenizer_call tk = tokenize_number (tk\<lparr>idx := idx tk + 1\<rparr>)"
  using digit_facts[OF assms(1)] assms(2,3)
  by (subst tokenizer_call.simps) (simp add: Let_def)

lemma number_scan:
  assumes "is_ascii_digit d" and "set run \<subseteq> set number_chars"
    and "rest = [] \<or> hd rest \<notin> set number_chars"
    and "source tk = pre @ d # run @ rest" and "idx tk = length pre"
  shows "tokenizer_call tk =
           (case py_int (d # run) of
              Inl e \<Rightarrow> Inl e
            | Inr number \<Rightarrow>
                Inr (mk_Token IntLiteral (PyInt number) (line tk),
                     tk\<lparr>idx := length pre + length run + 1\<rparr>))"
proof -
  let ?tk1 = "tk\<lparr>idx := idx tk + 1\<rparr>"
  have c: "source tk ! idx tk = d" and lt: "idx tk < length (source tk)"
    using assms by simp_all
  have call: "tokenizer_call tk = tokenize_number ?tk1"
    by (rule call_digit[OF assms(1) lt c])
  have src1: "source ?tk1 = (pre @ [d]) @ run @ rest" and idx1: "idx ?tk1 = length (pre @ [d])"
    using assms by simp_all
  have loop: "tokenize_number_loop ?tk1 = ?tk1\<lparr>idx := length (pre @ [d]) + length run\<rparr>"
    by (rule number_loop[OF assms(2) src1 idx1 assms(3)])
  have sl: "slice (source tk) (length pre) (length pre + length (d # run)) = d # run"
    using assms(4) by (simp add: slice_def)
  show ?thesis
    unfolding call tokenize_number_def Let_def loop
    using sl assms(5) by (simp add: add.commute split: sum.splits)
qed

lemma number_token_ok:
  assumes "is_ascii_digit d" and "set run \<subseteq> set number_chars"
    and "rest = [] \<or> hd rest \<notin> set number_chars"
    and "source tk = pre @ d # run @ rest" and "idx tk = length pre"
    and "int_literal_ok (d # run)"
  shows "tokenizer_call tk =
           Inr (mk_Token IntLiteral
                  (PyInt (int (decimal_value (filter (\<lambda>c. c \<noteq> CHR ''_'') (d # run)))))
                  (line tk),
                tk\<lparr>idx := length pre + length run + 1\<rparr>)"
  unfolding number_scan[OF assms(1-5)] using assms(6) by (simp add: py_int_def)

lemma number_token_raises:
  assumes "is_ascii_digit d" and "set run \<subseteq> set number_chars"
    and "rest = [] \<or> hd rest \<notin> set number_chars"
    and "source tk = pre @ d # run @ rest" and "idx tk = length pre"
    and "\<not> int_literal_ok (d # run)"
  shows "tokenizer_call tk = Inl ValueError"
  unfolding number_scan[OF assms(1-5)] using assms(6) by (simp add: py_int_def)

lemma init_trailing_underscore: "Parser_init ''1_'' = Inl ValueError"
  by code_simp

lemma thousand_token:
  "tokenizer_call (Tokenizer_init ''1_000'')
     = Inr (mk_Token IntLiteral (PyInt 1000) 0, \<lparr>source = ''1_000'', idx = 5, line = 0\<rparr>)"
  by code_simp

text \<open>
  Claim C6. The run \<open>1_\<close> is a maximal run of digits and underscores that starts with a
  digit; the tokenizer scans it whole and then \<open>int\<close> raises \<open>ValueError\<close>, as it does
  for \<open>1__0\<close>. No token is returned, and the exception leaves the parser's constructor.
\<close>

theorem trailing_underscore_raises:
  "tokenizer_call (Tokenizer_init ''1_'') = Inl ValueError
   \<and> tokenizer_call (Tokenizer_init ''1__0'') = Inl ValueError
   \<and> tokenize_number_loop \<lparr>source = ''1_'', idx = 1, line = 0\<rparr>
       = \<lparr>source = ''1_'', idx = 2, line = 0\<rparr>
   \<and> Parser_init ''1_'' = Inl ValueError"
  by code_simp

section \<open>Parser primitives\<close>

lemma match_other: "tok_type (token p) \<noteq> t \<Longrightarrow> match p t = Inr (False, p)"
  by (simp add: match_def)

lemma bind_lift_Inr [simp]: "bind_result (lift (Inr (v, p))) f = f v p"
  by (simp add: bind_result_def lift_def)

lemma bind_ret [simp]: "bind_result (ret v p) f = f v p"
  by (simp add: bind_result_def ret_def)

lemma bind_None [simp]: "bind_result None f = None"
  by (simp add: bind_result_def)

text \<open>
  Claim C4. When the current token is not the expected one, \<open>consume\<close> returns \<open>False\<close>
  without raising, and the parser state afterwards is the state before with the message
  appended at the end of \<open>errors\<close>: the current token and the tokenizer are unchanged, so
  nothing was consumed or skipped.
\<close>

theorem consume_missing:
  "tok_type (token p) \<noteq> t \<Longrightarrow> consume p t s = Inr (False, p\<lparr>errors := errors p @ [s]\<rparr>)"
  by (simp add: consume_def)

theorem consume_missing_witness:
  "tok_type (token lbrace_eof_parser) \<noteq> Semicolon
   \<and> consume lbrace_eof_parser Semicolon ''Expected ';' after expression statement''
       = Inr (False,
              \<lparr>source_code = ''{'', tokenizer = \<lparr>source = ''{'', idx = 1, line = 0\<rparr>,
               token = mk_Token EndOfFile (PyInt 1) 0,
               errors = [''Expected ';' after expression statement''],
               symbol_table = [[(PyStr ''i32'', i32_entry)]],
               void_type = QualifiedType VoidType 0\<rparr>)"
proof -
  have h: "tok_type (token lbrace_eof_parser) \<noteq> Semicolon"
    by (simp add: lbrace_eof_parser_def mk_Token_def)
  from consume_missing [OF h, of "''Expected ';' after expression statement''"] h
  show ?thesis by (simp add: lbrace_eof_parser_def)
qed

section \<open>The depth bound\<close>

text \<open>
  A result reached under one bound is the result under every larger bound.
\<close>

lemma le_result_refl: "le_result a a"
  by (simp add: le_result_def)

lemma le_result_None [simp]: "le_result None b"
  by (simp add: le_result_def)

lemma le_result_bind:
  assumes "le_result m m'" and "\<And>v p. le_result (f v p) (f' v p)"
  shows "le_result (bind_result m f) (bind_result m' f')"
proof (cases m)
  case None
  then show ?thesis by (simp add: bind_result_def)
next
  case (Some r)
  with assms(1) have m': "m' = Some r" by (simp add: le_result_def)
  show ?thesis
  proof (cases r)
    case (Inl e)
    with Some m' show ?thesis by (simp add: bind_result_def le_result_def)
  next
    case (Inr vp)
    obtain v p where "vp = (v, p)" by (cases vp)
    with Some m' Inr assms(2)[of v p] show ?thesis by (simp add: bind_result_def)
  qed
qed

lemma le_result_if:
  "(c \<Longrightarrow> le_result a a') \<Longrightarrow> (\<not> c \<Longrightarrow> le_result b b')
   \<Longrightarrow> le_result (if c then a else b) (if c then a' else b')"
  by simp

lemma le_result_case_option:
  "(x = None \<Longrightarrow> le_result a a') \<Longrightarrow> (\<And>y. x = Some y \<Longrightarrow> le_result (f y) (f' y))
   \<Longrightarrow> le_result (case x of None \<Rightarrow> a | Some y \<Rightarrow> f y) (case x of None \<Rightarrow> a' | Some y \<Rightarrow> f' y)"
  by (cases x) simp_all

lemma le_result_case_sum:
  "(\<And>e. x = Inl e \<Longrightarrow> le_result (f e) (f' e)) \<Longrightarrow> (\<And>y. x = Inr y \<Longrightarrow> le_result (g y) (g' y))
   \<Longrightarrow> le_result (case x of Inl e \<Rightarrow> f e | Inr y \<Rightarrow> g y) (case x of Inl e \<Rightarrow> f' e | Inr y \<Rightarrow> g' y)"
  by (cases x) simp_all

lemmas le_result_intros = le_result_refl le_result_bind le_result_if le_result_case_option
  le_result_case_sum

lemma mono_expression:
  "(\<forall>p. le_result (parse_atom n p) (parse_atom (Suc n) p))
   \<and> (\<forall>p. le_result (parse_parenthesis n p) (parse_parenthesis (Suc n) p))
   \<and> (\<forall>p mp. le_result (parse_expression n mp p) (parse_expression (Suc n) mp p))
   \<and> (\<forall>p mp lhs. le_result (parse_expression_loop n mp lhs p) (parse_expression_loop (Suc n) mp lhs p))"
proof (induction n)
  case 0
  show ?case by simp
next
  case (Suc n)
  have a: "le_result (parse_atom (Suc n) p) (parse_atom (Suc (Suc n)) p)" for p
    unfolding parse_atom.simps using Suc by (intro le_result_intros) auto
  have b: "le_result (parse_parenthesis (Suc n) p) (parse_parenthesis (Suc (Suc n)) p)" for p
    unfolding parse_parenthesis.simps using Suc by (intro le_result_intros) auto
  have c: "le_result (parse_expression (Suc n) mp p) (parse_expression (Suc (Suc n)) mp p)" for p mp
    unfolding parse_expression.simps using Suc by (intro le_result_intros) auto
  have d: "le_result (parse_expression_loop (Suc n) mp lhs p) (parse_expression_loop (Suc (Suc n)) mp lhs p)"
    for p mp lhs
    unfolding parse_expression_loop.simps using Suc by (intro le_result_intros) auto
  from a b c d show ?case by blast
qed

lemma mono_variable_declaration:
  "le_result (parse_variable_declaration n p) (parse_variable_declaration (Suc n) p)"
  unfolding parse_variable_declaration_def Let_def
  using mono_expression[of n] by (intro le_result_intros) auto

lemma mono_parameters:
  "le_result (parse_parameters n ns ts p) (parse_parameters (Suc n) ns ts p)"
proof (induction n arbitrary: ns ts p)
  case 0
  show ?case by simp
next
  case (Suc n)
  show ?case unfolding parse_parameters.simps using Suc by (intro le_result_intros) auto
qed

lemma mono_statement:
  "(\<forall>p. le_result (parse_block n p) (parse_block (Suc n) p))
   \<and> (\<forall>p ss. le_result (parse_block_loop n ss p) (parse_block_loop (Suc n) ss p))
   \<and> (\<forall>p. le_result (parse_if n p) (parse_if (Suc n) p))
   \<and> (\<forall>p. le_result (parse_function_definition n p) (parse_function_definition (Suc n) p))
   \<and> (\<forall>p. le_result (parse_statement n p) (parse_statement (Suc n) p))"
proof (induction n)
  case 0
  show ?case by simp
next
  case (Suc n)
  note ex = mono_expression[of n] mono_variable_declaration[of n] mono_parameters[of n]
  have a: "le_result (parse_block (Suc n) p) (parse_block (Suc (Suc n)) p)" for p
    unfolding parse_block.simps using Suc by simp
  have b: "le_result (parse_block_loop (Suc n) ss p) (parse_block_loop (Suc (Suc n)) ss p)" for p ss
    unfolding parse_block_loop.simps using Suc by (intro le_result_intros) auto
  have c: "le_result (parse_if (Suc n) p) (parse_if (Suc (Suc n)) p)" for p
    unfolding parse_if.simps using Suc ex by (intro le_result_intros) auto
  have d: "le_result (parse_function_definition (Suc n) p) (parse_function_definition (Suc (Suc n)) p)" for p
    unfolding parse_function_definition.simps Let_def using Suc ex
    by (intro le_result_intros) auto
  have e: "le_result (parse_statement (Suc n) p) (parse_statement (Suc (Suc n)) p)" for p
    unfolding parse_statement.simps using Suc ex by (intro le_result_intros) auto
  from a b c d e show ?case by blast
qed

lemma mono_module_loop:
  "le_result (parse_module_loop n ss p) (parse_module_loop (Suc n) ss p)"
proof (induction n arbitrary: ss p)
  case 0
  show ?case by simp
next
  case (Suc n)
  show ?case unfolding parse_module_loop.simps using Suc mono_statement[of n]
    by (intro le_result_intros) auto
qed

lemma parse_module_mono:
  "parse_module n p = Some r \<Longrightarrow> parse_module (n + k) p = Some r"
proof (induction k)
  case 0
  then show ?case by simp
next
  case (Suc k)
  then have "parse_module (n + k) p = Some r" by simp
  with mono_module_loop[of "n + k" "[]" p] show ?case
    by (simp add: parse_module_def le_result_def)
qed

lemma parse_source_mono:
  "parse_source n src = Some r \<Longrightarrow> parse_source (n + k) src = Some r"
proof (cases "Parser_init src")
  case (Inl e)
  assume "parse_source n src = Some r"
  with Inl show ?thesis by (simp add: parse_source_def)
next
  case (Inr p)
  assume a: "parse_source n src = Some r"
  then obtain r' where r': "parse_module n p = Some r'"
    using Inr by (auto simp: parse_source_def split: option.splits)
  from parse_module_mono[OF r', of k] a r' Inr show ?thesis
    by (simp add: parse_source_def)
qed

lemma parse_expression_mono:
  "parse_expression n mp p = Some r \<Longrightarrow> parse_expression (n + k) mp p = Some r"
proof (induction k)
  case 0
  then show ?case by simp
next
  case (Suc k)
  then have h: "parse_expression (n + k) mp p = Some r" by simp
  have "parse_expression (n + k) mp p = None
        \<or> parse_expression (n + k) mp p = parse_expression (Suc (n + k)) mp p"
    using mono_expression[of "n + k"] unfolding le_result_def by blast
  with h show ?case unfolding add_Suc_right by (metis option.distinct(1))
qed

lemma parse_expression_of_mono:
  "parse_expression_of n src = Some r \<Longrightarrow> parse_expression_of (n + k) src = Some r"
proof (cases "Parser_init src")
  case (Inl e)
  assume "parse_expression_of n src = Some r"
  with Inl show ?thesis by (simp add: parse_expression_of_def)
next
  case (Inr p)
  assume a: "parse_expression_of n src = Some r"
  then obtain r' where r': "parse_expression n (-1000) p = Some r'"
    using Inr by (auto simp: parse_expression_of_def split: option.splits)
  from parse_expression_mono[OF r', of k] a r' Inr show ?thesis
    by (simp add: parse_expression_of_def)
qed

section \<open>Worked examples\<close>

text \<open>
  Claim C3. Parsing \<open>var x: notatype;\<close> returns a module with the single declaration of
  \<open>x\<close> whose type is the parser's void placeholder (the void type without flags) and
  which has no initialiser; the list of diagnostics holds exactly the message that names
  \<open>notatype\<close>.
\<close>

theorem unknown_type_name:
  "parse_source (50 + k) ''var x: notatype;''
     = Some (Inr (ModuleDefinition
                    [VariableDeclaration (PyStr ''x'') (QualifiedType VoidType 0) None],
                  [''No type found with name notatype'']))"
proof -
  have "parse_source 50 ''var x: notatype;''
     = Some (Inr (ModuleDefinition
                    [VariableDeclaration (PyStr ''x'') (QualifiedType VoidType 0) None],
                  [''No type found with name notatype'']))"
    by code_simp
  then show ?thesis by (rule parse_source_mono)
qed

lemma missing_semicolon_example:
  "parse_source (20 + k) ''x''
     = Some (Inr (ModuleDefinition [ExpressionStatement (Some (Identifier_expr (PyStr ''x'')))],
                  [''Expected ';' after expression statement'']))"
proof -
  have "parse_source 20 ''x''
     = Some (Inr (ModuleDefinition [ExpressionStatement (Some (Identifier_expr (PyStr ''x'')))],
                  [''Expected ';' after expression statement'']))"
    by code_simp
  then show ?thesis by (rule parse_source_mono)
qed

lemma main_example:
  "parse_source (100 + k) main_text
     = Some (Inr (ModuleDefinition
          [FunctionDefinition (PyStr ''func'') (FunctionType q_i32 [q_i32, q_i32])
             [PyStr ''a'', PyStr ''b'']
             (Some (StatementBlock
                [VariableDeclaration (PyStr ''c'') q_i32
                   (Some (BinaryOperator (Some (Identifier_expr (PyStr ''a''))) Add
                            (Some (Identifier_expr (PyStr ''b''))))),
                 ReturnStatement
                   (Some (BinaryOperator
                      (Some (BinaryOperator (Some (Identifier_expr (PyStr ''c''))) Multiply
                               (Some (Identifier_expr (PyStr ''c'')))))
                      Add
                      (Some (BinaryOperator (Some (Identifier_expr (PyStr ''a''))) Multiply
                               (Some (Identifier_expr (PyStr ''b'')))))))]))],
        []))"
proof -
  have "parse_source 100 main_text
     = Some (Inr (ModuleDefinition
          [FunctionDefinition (PyStr ''func'') (FunctionType q_i32 [q_i32, q_i32])
             [PyStr ''a'', PyStr ''b'']
             (Some (StatementBlock
                [VariableDeclaration (PyStr ''c'') q_i32
                   (Some (BinaryOperator (Some (Identifier_expr (PyStr ''a''))) Add
                            (Some (Identifier_expr (PyStr ''b''))))),
                 ReturnStatement
                   (Some (BinaryOperator
                      (Some (BinaryOperator (Some (Identifier_expr (PyStr ''c''))) Multiply
                               (Some (Identifier_expr (PyStr ''c'')))))
                      Add
                      (Some (BinaryOperator (Some (Identifier_expr (PyStr ''a''))) Multiply
                               (Some (Identifier_expr (PyStr ''b'')))))))]))],
        []))"
    by code_simp
  then show ?thesis by (rule parse_source_mono)
qed

lemma precedence_example:
  "parse_expression_of (20 + k) ''1 + 2 * 3''
     = Some (Inr (Some (BinaryOperator (Some (Constant Int_kind (PyInt 1))) Add
                    (Some (BinaryOperator (Some (Constant Int_kind (PyInt 2))) Multiply
                       (Some (Constant Int_kind (PyInt 3)))))),
                  mk_Token EndOfFile (PyInt 9) 0))"
proof -
  have "parse_expression_of 20 ''1 + 2 * 3''
       = Some (Inr (Some (BinaryOperator (Some (Constant Int_kind (PyInt 1))) Add
                      (Some (BinaryOperator (Some (Constant Int_kind (PyInt 2))) Multiply
                         (Some (Constant Int_kind (PyInt 3)))))),
                    mk_Token EndOfFile (PyInt 9) 0))"
    by code_simp
  then show ?thesis by (rule parse_expression_of_mono)
qed

lemma left_associative_example:
  "parse_expression_of (20 + k) ''1 - 2 - 3''
     = Some (Inr (Some (BinaryOperator
                    (Some (BinaryOperator (Some (Constant Int_kind (PyInt 1))) Subtract
                       (Some (Constant Int_kind (PyInt 2)))))
                    Subtract (Some (Constant Int_kind (PyInt 3)))),
                  mk_Token EndOfFile (PyInt 9) 0))"
proof -
  have "parse_expression_of 20 ''1 - 2 - 3''
       = Some (Inr (Some (BinaryOperator
                      (Some (BinaryOperator (Some (Constant Int_kind (PyInt 1))) Subtract
                         (Some (Constant Int_kind (PyInt 2)))))
                      Subtract (Some (Constant Int_kind (PyInt 3)))),
                    mk_Token EndOfFile (PyInt 9) 0))"
    by code_simp
  then show ?thesis by (rule parse_expression_of_mono)
qed

lemma precedence_tiers:
  "map (\<lambda>t. map_option precedence (operator_map t))
     [Star, Slash, Percent, Plus, Minus, LShift, RShift,
      Greater, GreaterEqual, Lesser, LesserEqual, Equal, BangEqual, Ampersand, Caret, Pipe]
   = map Some [0, 0, 0, -1, -1, -2, -2, -3, -3, -3, -3, -4, -4, -5, -6, -7]"
  by code_simp

lemma all_left_associative:
  "operator_map t = Some info \<Longrightarrow> left_associativity info"
  by (auto simp: operator_map_def mk_OpInfo_def split: if_splits)

text \<open>
  Claim C2. The operator table has no entry for the token \<open>EqualEqual\<close> of \<open>==\<close>; its
  entry for \<open>CmpEqual\<close> is under \<open>Equal\<close>, the token of a single \<open>=\<close>. So the expression
  parser stops in front of \<open>==\<close>: from \<open>1 == 2\<close> it returns the constant 1 and leaves
  the \<open>==\<close> token current, while \<open>1 = 2\<close> parses as the comparison.
\<close>

theorem equality_operator_not_parsed:
  "operator_map EqualEqual = None
   \<and> operator_map Equal = Some (mk_OpInfo (-4) True CmpEqual)
   \<and> parse_expression_of (20 + k) ''1 == 2''
       = Some (Inr (Some (Constant Int_kind (PyInt 1)), mk_Token EqualEqual PyNone 0))
   \<and> parse_expression_of (20 + k) ''1 = 2''
       = Some (Inr (Some (BinaryOperator (Some (Constant Int_kind (PyInt 1))) CmpEqual
                      (Some (Constant Int_kind (PyInt 2)))),
                    mk_Token EndOfFile (PyInt 5) 0))"
proof -
  have a: "operator_map EqualEqual = None
           \<and> operator_map Equal = Some (mk_OpInfo (-4) True CmpEqual)"
    by code_simp
  have b: "parse_expression_of 20 ''1 == 2''
       = Some (Inr (Some (Constant Int_kind (PyInt 1)), mk_Token EqualEqual PyNone 0))"
    by code_simp
  have c: "parse_expression_of 20 ''1 = 2''
       = Some (Inr (Some (BinaryOperator (Some (Constant Int_kind (PyInt 1))) CmpEqual
                      (Some (Constant Int_kind (PyInt 2)))),
                    mk_Token EndOfFile (PyInt 5) 0))"
    by code_simp
  from a parse_expression_of_mono[OF b, of k] parse_expression_of_mono[OF c, of k]
  show ?thesis by simp
qed

section \<open>Calls of \<open>parse_module\<close> that do not return\<close>

lemma atom_nothing:
  assumes "starts_nothing (tok_type (token p))"
  shows "parse_atom (Suc n) p = ret None p"
  using assms by (simp add: starts_nothing_def match_other)

lemma expression_nothing:
  assumes "starts_nothing (tok_type (token p))"
  shows "parse_expression n mp p = None \<or> parse_expression n mp p = ret None p"
proof (cases n)
  case 0
  then show ?thesis by simp
next
  case (Suc a)
  show ?thesis
  proof (cases a)
    case 0
    with Suc show ?thesis by simp
  next
    case (Suc b)
    have "parse_expression (Suc (Suc b)) mp p = parse_expression_loop (Suc b) mp None p"
      by (simp only: parse_expression.simps atom_nothing[OF assms] bind_ret)
    also have "\<dots> = ret None p"
      using assms by (simp add: starts_nothing_def)
    finally show ?thesis using Suc \<open>n = Suc a\<close> by simp
  qed
qed

lemma statement_nothing:
  assumes "starts_nothing (tok_type (token p))"
  shows "parse_statement n p = None
         \<or> parse_statement n p = ret (ExpressionStatement None) (semicolon_missing p)"
proof (cases n)
  case 0
  then show ?thesis by simp
next
  case (Suc a)
  have m: "match p ReturnKW = Inr (False, p)" "match p FnKW = Inr (False, p)"
    "match p VarKW = Inr (False, p)" "match p IfKW = Inr (False, p)"
    "match p LBrace = Inr (False, p)"
    using assms by (simp_all add: starts_nothing_def match_other)
  have c: "consume p Semicolon s = Inr (False, p\<lparr>errors := errors p @ [s]\<rparr>)" for s
    using assms by (simp add: starts_nothing_def consume_def)
  from expression_nothing[OF assms, of a "-1000"] show ?thesis
    unfolding Suc parse_statement.simps
    by (auto simp: m c semicolon_missing_def)
qed

lemma semicolon_missing_token [simp]: "token (semicolon_missing p) = token p"
  by (simp add: semicolon_missing_def)

lemma module_loop_diverges:
  assumes "starts_nothing (tok_type (token p))" and "tok_type (token p) \<noteq> EndOfFile"
  shows "parse_module_loop n ss p = None"
  using assms
proof (induction n arbitrary: ss p)
  case 0
  show ?case by simp
next
  case (Suc n)
  from statement_nothing[OF Suc.prems(1), of n] show ?case
  proof
    assume "parse_statement n p = None"
    with Suc.prems show ?thesis by simp
  next
    assume "parse_statement n p = ret (ExpressionStatement None) (semicolon_missing p)"
    with Suc.prems Suc.IH[of "semicolon_missing p"] show ?thesis by simp
  qed
qed

lemma block_loop_diverges:
  assumes "starts_nothing (tok_type (token p))" and "tok_type (token p) \<noteq> RBrace"
  shows "parse_block_loop n ss p = None"
  using assms
proof (induction n arbitrary: ss p)
  case 0
  show ?case by simp
next
  case (Suc n)
  have m: "match p RBrace = Inr (False, p)" using Suc.prems by (simp add: match_other)
  from statement_nothing[OF Suc.prems(1), of n] show ?case
  proof
    assume "parse_statement n p = None"
    then show ?thesis by (simp add: m)
  next
    assume "parse_statement n p = ret (ExpressionStatement None) (semicolon_missing p)"
    with Suc.prems Suc.IH[of "semicolon_missing p"] show ?thesis by (simp add: m)
  qed
qed

lemma init_rparen: "Parser_init '')'' = Inr rparen_parser"
  by code_simp

lemma init_lbrace: "Parser_init ''{'' = Inr lbrace_parser"
  by code_simp

lemma rparen_diverges: "parse_source n '')'' = None"
proof -
  have "starts_nothing (tok_type (token rparen_parser))"
    "tok_type (token rparen_parser) \<noteq> EndOfFile"
    by code_simp+
  then have "parse_module n rparen_parser = None"
    unfolding parse_module_def by (rule module_loop_diverges)
  then show ?thesis by (simp add: parse_source_def init_rparen)
qed

lemma lbrace_match: "match lbrace_parser LBrace = Inr (True, lbrace_eof_parser)"
  by code_simp

lemma lbrace_diverges: "parse_source n ''{'' = None"
proof -
  have t: "tok_type (token lbrace_parser) = LBrace" by code_simp
  have sn: "starts_nothing (tok_type (token lbrace_eof_parser))"
    "tok_type (token lbrace_eof_parser) \<noteq> RBrace"
    by code_simp+
  have blk: "parse_block k lbrace_eof_parser = None" for k
    by (cases k) (simp_all add: block_loop_diverges[OF sn])
  have st: "parse_statement k lbrace_parser = None" for k
    by (cases k) (simp_all add: t match_other lbrace_match blk)
  have "parse_module n lbrace_parser = None"
    unfolding parse_module_def by (cases n) (simp_all add: st t)
  then show ?thesis by (simp add: parse_source_def init_lbrace)
qed

lemma trailing_underscore_source: "parse_source n ''1_'' = Some (Inl ValueError)"
  by (simp add: parse_source_def init_trailing_underscore)

lemma error_token_as_type: "parse_source (20 + k) ''var x: @;'' = Some (Inl TypeError)"
proof -
  have "parse_source 20 ''var x: @;'' = Some (Inl TypeError)" by code_simp
  then show ?thesis by (rule parse_source_mono)
qed

text \<open>
  Claim C1. For the text \<open>{\<close> the call of \<open>parse_module\<close> returns for no bound on its
  depth, and neither for \<open>)\<close>: a statement that starts on a token which begins nothing
  consumes nothing, so the loops of \<open>parse_block\<close> and \<open>parse_module\<close> repeat on the same
  token for ever, appending a diagnostic each time. For the text \<open>1_\<close> constructing the
  parser raises \<open>ValueError\<close>, and for \<open>var x: @;\<close> the call raises \<open>TypeError\<close>.
\<close>

theorem parse_module_not_total:
  "parse_source n ''{'' = None
   \<and> parse_source n '')'' = None
   \<and> parse_source n ''1_'' = Some (Inl ValueError)
   \<and> parse_source (20 + n) ''var x: @;'' = Some (Inl TypeError)"
  using lbrace_diverges rparen_diverges trailing_underscore_source error_token_as_type
  by simp

section \<open>The symbol table during parsing\<close>

lemma keeps_None [simp]: "keeps T None"
  by (simp add: keeps_def)

lemma keeps_Inl [simp]: "keeps T (Some (Inl e))"
  by (simp add: keeps_def)

lemma keepsI: "(\<And>v p'. r = Some (Inr (v, p')) \<Longrightarrow> symbol_table p' = T) \<Longrightarrow> keeps T r"
  by (auto simp: keeps_def split: option.splits sum.splits)

lemma keepsD: "keeps T r \<Longrightarrow> r = Some (Inr (v, p')) \<Longrightarrow> symbol_table p' = T"
  by (simp add: keeps_def)

lemma keeps_ret: "symbol_table p = T \<Longrightarrow> keeps T (ret v p)"
  by (simp add: keeps_def ret_def)

lemma keeps_bind:
  assumes "keeps T m" and "\<And>v p1. symbol_table p1 = T \<Longrightarrow> keeps T (f v p1)"
  shows "keeps T (bind_result m f)"
proof (rule keepsI)
  fix v p'
  assume r: "bind_result m f = Some (Inr (v, p'))"
  then obtain w p1 where m: "m = Some (Inr (w, p1))" and f: "f w p1 = Some (Inr (v, p'))"
    by (auto simp: bind_result_def split: option.splits sum.splits)
  from keepsD[OF assms(1) m] have "symbol_table p1 = T" .
  from keepsD[OF assms(2)[OF this] f] show "symbol_table p' = T" .
qed

lemma keeps_if: "(c \<Longrightarrow> keeps T a) \<Longrightarrow> (\<not> c \<Longrightarrow> keeps T b) \<Longrightarrow> keeps T (if c then a else b)"
  by simp

lemma keeps_case_sum:
  "(\<And>e. x = Inl e \<Longrightarrow> keeps T (f e)) \<Longrightarrow> (\<And>v. x = Inr v \<Longrightarrow> keeps T (g v))
   \<Longrightarrow> keeps T (case x of Inl e \<Rightarrow> f e | Inr v \<Rightarrow> g v)"
  by (cases x) simp_all

lemma advance_table: "advance p = Inr (t, p') \<Longrightarrow> symbol_table p' = symbol_table p"
  by (auto simp: advance_def split: sum.splits)

lemma match_table: "match p t = Inr (b, p') \<Longrightarrow> symbol_table p' = symbol_table p"
  by (auto simp: match_def split: sum.splits if_splits)

lemma consume_table: "consume p t s = Inr (b, p') \<Longrightarrow> symbol_table p' = symbol_table p"
  by (auto simp: consume_def split: sum.splits if_splits)

lemma type_expression_table:
  "parse_type_expression p = Inr (tp, p') \<Longrightarrow> symbol_table p' = symbol_table p"
  unfolding parse_type_expression_def Let_def
  by (auto split: sum.splits option.splits if_splits bool.splits
        dest!: match_table consume_table)

lemma keeps_match: "symbol_table p = T \<Longrightarrow> keeps T (lift (match p t))"
  by (auto simp: keeps_def lift_def split: sum.splits dest: match_table)

lemma keeps_consume: "symbol_table p = T \<Longrightarrow> keeps T (lift (consume p t s))"
  by (auto simp: keeps_def lift_def split: sum.splits dest: consume_table)

lemma keeps_advance: "symbol_table p = T \<Longrightarrow> keeps T (lift (advance p))"
  by (auto simp: keeps_def lift_def split: sum.splits dest: advance_table)

lemma keeps_type_expression: "symbol_table p = T \<Longrightarrow> keeps T (lift (parse_type_expression p))"
  by (auto simp: keeps_def lift_def split: sum.splits dest: type_expression_table)

lemmas keeps_intros = keeps_bind keeps_ret keeps_match keeps_consume keeps_advance
  keeps_type_expression keeps_if

lemma keeps_expression:
  "(\<forall>p. symbol_table p = T \<longrightarrow> keeps T (parse_atom n p))
   \<and> (\<forall>p. symbol_table p = T \<longrightarrow> keeps T (parse_parenthesis n p))
   \<and> (\<forall>p mp. symbol_table p = T \<longrightarrow> keeps T (parse_expression n mp p))
   \<and> (\<forall>p mp lhs. symbol_table p = T \<longrightarrow> keeps T (parse_expression_loop n mp lhs p))"
proof (induction n)
  case 0
  show ?case by simp
next
  case (Suc n)
  have a: "keeps T (parse_atom (Suc n) p)" if "symbol_table p = T" for p
    unfolding parse_atom.simps using that Suc by (intro keeps_intros) auto
  have b: "keeps T (parse_parenthesis (Suc n) p)" if "symbol_table p = T" for p
    unfolding parse_parenthesis.simps using that Suc by (intro keeps_intros) auto
  have c: "keeps T (parse_expression (Suc n) mp p)" if "symbol_table p = T" for p mp
    unfolding parse_expression.simps using that Suc by (intro keeps_intros) auto
  have d: "keeps T (parse_expression_loop (Suc n) mp lhs p)" if "symbol_table p = T" for p mp lhs
    unfolding parse_expression_loop.simps using that Suc
    by (auto split: option.splits intro!: keeps_intros)
  from a b c d show ?case by blast
qed

lemma keeps_variable_declaration:
  "symbol_table p = T \<Longrightarrow> keeps T (parse_variable_declaration n p)"
  unfolding parse_variable_declaration_def Let_def
  using keeps_expression[of T n] by (intro keeps_intros) auto

lemma keeps_parameters:
  "symbol_table p = T \<Longrightarrow> keeps T (parse_parameters n ns ts p)"
proof (induction n arbitrary: ns ts p)
  case 0
  show ?case by simp
next
  case (Suc n)
  show ?case unfolding parse_parameters.simps using Suc by (intro keeps_intros) auto
qed

lemma keeps_statement:
  "(\<forall>p. symbol_table p = T \<longrightarrow> keeps T (parse_block n p))
   \<and> (\<forall>p ss. symbol_table p = T \<longrightarrow> keeps T (parse_block_loop n ss p))
   \<and> (\<forall>p. symbol_table p = T \<longrightarrow> keeps T (parse_if n p))
   \<and> (\<forall>p. symbol_table p = T \<longrightarrow> keeps T (parse_function_definition n p))
   \<and> (\<forall>p. symbol_table p = T \<longrightarrow> keeps T (parse_statement n p))"
proof (induction n)
  case 0
  show ?case by simp
next
  case (Suc n)
  note ex = keeps_expression[of T n] keeps_variable_declaration[of _ T n]
    keeps_parameters[of _ T n]
  have a: "keeps T (parse_block (Suc n) p)" if "symbol_table p = T" for p
    unfolding parse_block.simps using that Suc by simp
  have b: "keeps T (parse_block_loop (Suc n) ss p)" if "symbol_table p = T" for p ss
    unfolding parse_block_loop.simps using that Suc by (intro keeps_intros) auto
  have c: "keeps T (parse_if (Suc n) p)" if "symbol_table p = T" for p
    unfolding parse_if.simps using that Suc ex by (intro keeps_intros) auto
  have d: "keeps T (parse_function_definition (Suc n) p)" if "symbol_table p = T" for p
    unfolding parse_function_definition.simps Let_def using that Suc ex
    by (intro keeps_intros keeps_case_sum) auto
  have e: "keeps T (parse_statement (Suc n) p)" if "symbol_table p = T" for p
    unfolding parse_statement.simps using that Suc ex by (intro keeps_intros) auto
  from a b c d e show ?case by blast
qed

lemma keeps_module:
  "symbol_table p = T \<Longrightarrow> keeps T (parse_module_loop n ss p)"
proof (induction n arbitrary: ss p)
  case 0
  show ?case by simp
next
  case (Suc n)
  show ?case unfolding parse_module_loop.simps using Suc keeps_statement[of T n]
    by (intro keeps_intros) auto
qed

lemma Parser_init_table:
  "Parser_init text = Inr p \<Longrightarrow> symbol_table p = [[(PyStr ''i32'', i32_entry)]]"
  by (auto simp: Parser_init_def IntegerType_init_def i32_entry_def split: sum.splits)

lemma root_lookup:
  "symbol_table p = [[(PyStr ''i32'', i32_entry)]] \<Longrightarrow> search_symbol p key = Inr (Some e) \<Longrightarrow>
     key = PyStr ''i32'' \<and> e = i32_entry"
  by (auto simp: search_symbol_def dict_get_def split: PyValue.splits if_splits)

lemma root_type_expression:
  assumes "symbol_table p = [[(PyStr ''i32'', i32_entry)]]"
    and "parse_type_expression p = Inr (tp, p')"
  shows "tp = void_type p \<or> tp = q_i32 \<or> tp = add_flags q_i32 Reference"
proof -
  have tbl: "\<And>b p1 t s. consume p t s = Inr (b, p1) \<Longrightarrow>
               symbol_table p1 = [[(PyStr ''i32'', i32_entry)]] \<and> void_type p1 = void_type p"
    using assms(1) by (auto simp: consume_def split: sum.splits if_splits)
  have e: "entry_type i32_entry = q_i32" by (simp add: i32_entry_def q_i32_def)
  from assms(2) show ?thesis
    unfolding parse_type_expression_def Let_def
    by (auto split: sum.splits option.splits if_splits bool.splits dest!: tbl)
      (metis root_lookup e)+
qed

lemma init_main: "Parser_init main_text = Inr main_parser"
  by code_simp

lemma main_returns:
  "(case parse_module 100 main_parser of Some (Inr (m, p')) \<Rightarrow> True | _ \<Rightarrow> False)"
  by code_simp

text \<open>
  Claim C5. The constructor leaves the symbol table with one scope that holds only the
  name \<open>i32\<close>, an entry of kind \<open>Type\<close> for the signed integer of width 32. Every parsing
  operation that returns leaves the symbol table as it found it: the token primitives,
  the type expression, and each recursive parsing method up to \<open>parse_module\<close>. With
  that table a lookup succeeds only for \<open>i32\<close> and gives the built-in entry, and a type
  expression gives the void placeholder or the built-in integer type, with the reference
  flag added when \<open>&\<close> follows.
\<close>

theorem symbol_table_invariant:
  "(Parser_init src = Inr p0 \<longrightarrow> symbol_table p0 = [[(PyStr ''i32'', i32_entry)]])
   \<and> i32_entry = \<lparr>kind = Type, entry_type = QualifiedType (IntegerType 32 True) 0\<rparr>
   \<and> (advance p = Inr (tok, p') \<longrightarrow> symbol_table p' = symbol_table p)
   \<and> (match p t = Inr (b, p') \<longrightarrow> symbol_table p' = symbol_table p)
   \<and> (consume p t s = Inr (b, p') \<longrightarrow> symbol_table p' = symbol_table p)
   \<and> (parse_type_expression p = Inr (tp, p') \<longrightarrow> symbol_table p' = symbol_table p)
   \<and> (parse_atom n p = Some (Inr (e, p')) \<longrightarrow> symbol_table p' = symbol_table p)
   \<and> (parse_parenthesis n p = Some (Inr (e, p')) \<longrightarrow> symbol_table p' = symbol_table p)
   \<and> (parse_expression n mp p = Some (Inr (e, p')) \<longrightarrow> symbol_table p' = symbol_table p)
   \<and> (parse_variable_declaration n p = Some (Inr (st, p')) \<longrightarrow> symbol_table p' = symbol_table p)
   \<and> (parse_function_definition n p = Some (Inr (st, p')) \<longrightarrow> symbol_table p' = symbol_table p)
   \<and> (parse_if n p = Some (Inr (st, p')) \<longrightarrow> symbol_table p' = symbol_table p)
   \<and> (parse_block n p = Some (Inr (st, p')) \<longrightarrow> symbol_table p' = symbol_table p)
   \<and> (parse_statement n p = Some (Inr (st, p')) \<longrightarrow> symbol_table p' = symbol_table p)
   \<and> (parse_module n p = Some (Inr (m, p')) \<longrightarrow> symbol_table p' = symbol_table p)
   \<and> (symbol_table p = [[(PyStr ''i32'', i32_entry)]] \<longrightarrow> search_symbol p key = Inr (Some en)
        \<longrightarrow> key = PyStr ''i32'' \<and> en = i32_entry)
   \<and> (symbol_table p = [[(PyStr ''i32'', i32_entry)]] \<longrightarrow> parse_type_expression p = Inr (tp, p')
        \<longrightarrow> tp = void_type p \<or> tp = q_i32 \<or> tp = add_flags q_i32 Reference)"
proof -
  note ex = keeps_expression[of "symbol_table p" n]
  note st = keeps_statement[of "symbol_table p" n]
  have 1: "Parser_init src = Inr p0 \<longrightarrow> symbol_table p0 = [[(PyStr ''i32'', i32_entry)]]"
    by (blast dest: Parser_init_table)
  have 2: "i32_entry = \<lparr>kind = Type, entry_type = QualifiedType (IntegerType 32 True) 0\<rparr>"
    by (simp add: i32_entry_def)
  have 3: "advance p = Inr (tok, p') \<longrightarrow> symbol_table p' = symbol_table p"
    by (blast dest: advance_table)
  have 4: "match p t = Inr (b, p') \<longrightarrow> symbol_table p' = symbol_table p"
    by (blast dest: match_table)
  have 5: "consume p t s = Inr (b, p') \<longrightarrow> symbol_table p' = symbol_table p"
    by (blast dest: consume_table)
  have 6: "parse_type_expression p = Inr (tp, p') \<longrightarrow> symbol_table p' = symbol_table p"
    by (blast dest: type_expression_table)
  have 7: "parse_atom n p = Some (Inr (e, p')) \<longrightarrow> symbol_table p' = symbol_table p"
    using ex by (blast dest: keepsD)
  have 8: "parse_parenthesis n p = Some (Inr (e, p')) \<longrightarrow> symbol_table p' = symbol_table p"
    using ex by (blast dest: keepsD)
  have 9: "parse_expression n mp p = Some (Inr (e, p')) \<longrightarrow> symbol_table p' = symbol_table p"
    using ex by (blast dest: keepsD)
  have 10: "parse_variable_declaration n p = Some (Inr (st, p')) \<longrightarrow> symbol_table p' = symbol_table p"
    using keeps_variable_declaration[of p "symbol_table p" n] by (blast dest: keepsD)
  have 11: "parse_function_definition n p = Some (Inr (st, p')) \<longrightarrow> symbol_table p' = symbol_table p"
    using st by (blast dest: keepsD)
  have 12: "parse_if n p = Some (Inr (st, p')) \<longrightarrow> symbol_table p' = symbol_table p"
    using st by (blast dest: keepsD)
  have 13: "parse_block n p = Some (Inr (st, p')) \<longrightarrow> symbol_table p' = symbol_table p"
    using st by (blast dest: keepsD)
  have 14: "parse_statement n p = Some (Inr (st, p')) \<longrightarrow> symbol_table p' = symbol_table p"
    using st by (blast dest: keepsD)
  have 15: "parse_module n p = Some (Inr (m, p')) \<longrightarrow> symbol_table p' = symbol_table p"
    unfolding parse_module_def
    using keeps_module[of p "symbol_table p" n "[]"] by (blast dest: keepsD)
  have 16: "symbol_table p = [[(PyStr ''i32'', i32_entry)]] \<longrightarrow> search_symbol p key = Inr (Some en)
        \<longrightarrow> key = PyStr ''i32'' \<and> en = i32_entry"
    by (blast dest: root_lookup)
  have 17: "symbol_table p = [[(PyStr ''i32'', i32_entry)]] \<longrightarrow> parse_type_expression p = Inr (tp, p')
        \<longrightarrow> tp = void_type p \<or> tp = q_i32 \<or> tp = add_flags q_i32 Reference"
    by (blast dest: root_type_expression)
  from 1 2 3 4 5 6 7 8 9 10 11 12 13 14 15 16 17 show ?thesis by blast
qed

theorem symbol_table_invariant_witness:
  "Parser_init main_text = Inr main_parser
   \<and> symbol_table main_parser = [[(PyStr ''i32'', i32_entry)]]
   \<and> (case parse_module 100 main_parser of
        Some (Inr (m, p')) \<Rightarrow> symbol_table p' = [[(PyStr ''i32'', i32_entry)]]
      | _ \<Rightarrow> False)"
proof -
  from main_returns obtain m p' where r: "parse_module 100 main_parser = Some (Inr (m, p'))"
    by (auto split: option.splits sum.splits)
  from symbol_table_invariant [where src = main_text and ?p0.0 = main_parser
      and p = main_parser and p' = p' and n = 100 and m = m]
    init_main r
  have "symbol_table main_parser = [[(PyStr ''i32'', i32_entry)]]"
    and "symbol_table p' = symbol_table main_parser"
    by blast+
  with init_main r show ?thesis by simp
qed

end
